theory Spec2Isabelle
  imports Main
begin

section \<open>The remote mixer and the logger\<close>

text \<open>
  The programs \<^verbatim>\<open>fs_source.py\<close> (class \<^verbatim>\<open>FaceDetectionSwitcher\<close>) and
  \<^verbatim>\<open>fs_source_daemon.py\<close> (class \<^verbatim>\<open>FaceDetectionDaemon\<close>) drive OBS through
  \<^verbatim>\<open>self.obs_ws.call(request)\<close>. A scene item is the dictionary OBS returns for it.
\<close>

record scene_item =
  sourceName :: string
  sceneItemId :: int
  sceneItemEnabled :: bool

datatype request =
    GetVersion
  | GetSceneList
  | GetSceneItemList string
  | SetSceneItemEnabled string int bool
  | GetSourceScreenshot string

datatype level = DEBUG | INFO | WARNING | ERROR

text \<open>
  One constructor per \<^verbatim>\<open>logger\<close> call of the two programs; the interpolated values are
  kept where a property below reads them.
\<close>

datatype message =
    Source_name_not_configured
  | Skipping_excluded_scene string
  | Set_to_in string bool string
  | Could_not_modify string string
  | Set_visibility_in_scenes string bool nat "string list"
  | Shown_or_hidden_in_scenes string bool nat
  | Not_found_in_any_scenes string
  | Failed_to_toggle_globally
  | Failed_to_get_source_screenshot
  | Face_detection_error
  | OBS_not_responsive
  | Disconnected_from_OBS
  | Connected_to_OBS
  | Failed_to_connect_to_OBS
  | Failed_to_connect_attempt nat
  | Still_unable_to_connect nat
  | Starting_switcher
  | Cannot_continue_without_OBS
  | Monitor_source_not_configured
  | Monitoring_source string
  | Target_source string
  | Face_detected_show_in_all_scenes string
  | No_face_hide_in_all_scenes string
  | Keep_visible_in string "string list"
  | Face_detection_active
  | Failed_to_get_frame
  | Face_detected_switching
  | No_face_detected_reverting
  | Runtime_error
  | Standby_mode_waiting
  | OBS_connection_established
  | OBS_is_now_active
  | Active_mode_enabled
  | Will_show string
  | Will_hide string
  | OBS_stopped_returning_to_standby
  | Too_many_consecutive_errors
  | Face_detected
  | Face_gone
  | Banner_line
  | Daemon_starting
  | Daemon_mode_always_running
  | Standby_mode_failed
  | Active_mode_exited_with_error

text \<open>
  The arguments of one call of \<^verbatim>\<open>set_source_visibility_global\<close>, with the scenes the
  call treats as excluded.
\<close>

record sync_request =
  target_source_name :: string
  desired_visible :: bool
  excluded_scenes :: "string list"

text \<open>
  The world outside the process. \<open>scene_list\<close> is what \<^verbatim>\<open>GetSceneList\<close> answers,
  \<open>scene_items\<close> what \<^verbatim>\<open>GetSceneItemList\<close> answers for a scene name; the three
  \<open>_fails\<close> fields say which requests raise an exception, and \<open>set_rejected\<close> which
  \<^verbatim>\<open>SetSceneItemEnabled\<close> requests OBS refuses while \<^verbatim>\<open>obs_ws.call\<close> returns normally
  (the response carries the failure, and the code does not read it). \<open>calls\<close>, \<open>invoked\<close> and
  \<open>logged\<close> are histories, oldest first: the requests sent, the calls of
  \<^verbatim>\<open>set_source_visibility_global\<close> made, and the log records written. Nothing reads the
  histories.
\<close>

record world =
  list_fails :: bool
  scene_list :: "string list"
  fetch_fails :: "string \<Rightarrow> bool"
  scene_items :: "string \<Rightarrow> scene_item list"
  set_fails :: "string \<Rightarrow> int \<Rightarrow> bool"
  set_rejected :: "string \<Rightarrow> int \<Rightarrow> bool"
  disconnect_fails :: bool
  calls :: "request list"
  invoked :: "sync_request list"
  logged :: "(level \<times> message) list"

definition logger :: "level \<Rightarrow> message \<Rightarrow> world \<Rightarrow> world" where
  "logger l m w = w\<lparr>logged := logged w @ [(l, m)]\<rparr>"

definition issue :: "request \<Rightarrow> world \<Rightarrow> world" where
  "issue q w = w\<lparr>calls := calls w @ [q]\<rparr>"

definition invoke :: "sync_request \<Rightarrow> world \<Rightarrow> world" where
  "invoke r w = w\<lparr>invoked := invoked w @ [r]\<rparr>"

text \<open>
  \<^verbatim>\<open>obs_ws.call(GetSceneList()).getScenes()\<close>: \<open>None\<close> when an exception is raised,
  else the scene names in OBS's order.
\<close>

definition call_GetSceneList :: "world \<Rightarrow> world \<times> string list option" where
  "call_GetSceneList w =
     (issue GetSceneList w, if list_fails w then None else Some (scene_list w))"

text \<open>\<^verbatim>\<open>obs_ws.call(GetSceneItemList(sceneName=...)).getSceneItems()\<close>.\<close>

definition call_GetSceneItemList :: "string \<Rightarrow> world \<Rightarrow> world \<times> scene_item list option" where
  "call_GetSceneItemList scene_name w =
     (issue (GetSceneItemList scene_name) w,
      if fetch_fails w scene_name then None else Some (scene_items w scene_name))"

text \<open>
  \<^verbatim>\<open>SetSceneItemEnabled\<close> addresses an item by scene name and scene-scoped item id.
\<close>

definition set_enabled :: "int \<Rightarrow> bool \<Rightarrow> scene_item list \<Rightarrow> scene_item list" where
  "set_enabled i v items =
     map (\<lambda>item. if sceneItemId item = i then item\<lparr>sceneItemEnabled := v\<rparr> else item) items"

text \<open>
  Three outcomes: the request raises (second component \<open>False\<close>); OBS refuses it and the
  call returns, nothing changed; OBS applies it and the call returns. The code sees the
  last two alike: \<^verbatim>\<open>self.obs_ws.call(...)\<close> is a statement whose value is dropped.
\<close>

definition call_SetSceneItemEnabled :: "string \<Rightarrow> int \<Rightarrow> bool \<Rightarrow> world \<Rightarrow> world \<times> bool" where
  "call_SetSceneItemEnabled scene_name i v w =
     (if set_fails w scene_name i then (issue (SetSceneItemEnabled scene_name i v) w, False)
      else if set_rejected w scene_name i then (issue (SetSceneItemEnabled scene_name i v) w, True)
      else ((issue (SetSceneItemEnabled scene_name i v) w)
              \<lparr>scene_items := (scene_items w)(scene_name := set_enabled i v (scene_items w scene_name))\<rparr>,
            True))"

section \<open>Configuration and the two classes\<close>

text \<open>
  \<^verbatim>\<open>config.get(key)\<close> is \<open>None\<close> or a string; Python treats \<open>None\<close> and the empty
  string as false.
\<close>

record config =
  monitor_source_name :: "string option"
  detection_scene_name :: "string option"
  show_source_name :: "string option"
  hide_source_name :: "string option"

fun truthy :: "string option \<Rightarrow> bool" where
  "truthy None = False"
| "truthy (Some s) = (s \<noteq> [])"

fun str :: "string option \<Rightarrow> string" where
  "str None = []"
| "str (Some s) = s"

text \<open>
  \<open>obs_ws\<close> is \<open>True\<close> when \<^verbatim>\<open>self.obs_ws\<close> holds a client object, \<open>False\<close> when it is
  \<^verbatim>\<open>None\<close>. The daemon's class has the switcher's fields and three more.
\<close>

record FaceDetectionSwitcher =
  config :: config
  obs_ws :: bool
  face_detected :: bool
  last_detection_time :: nat

record FaceDetectionDaemon = FaceDetectionSwitcher +
  is_active :: bool
  reconnect_attempts :: nat
  max_reconnect_attempts :: nat

definition Switcher_init :: "config \<Rightarrow> FaceDetectionSwitcher" where
  "Switcher_init c =
     \<lparr>config = c, obs_ws = False, face_detected = False, last_detection_time = 0\<rparr>"

definition Daemon_init :: "config \<Rightarrow> FaceDetectionDaemon" where
  "Daemon_init c =
     \<lparr>config = c, obs_ws = False, face_detected = False, last_detection_time = 0,
      is_active = False, reconnect_attempts = 0, max_reconnect_attempts = 10\<rparr>"

section \<open>set_source_visibility_global\<close>

text \<open>
  The loop over the items of one scene is the same in both files:
  \<^verbatim>\<open>
  for item in scene_items.getSceneItems():
      if item['sourceName'] == source_name:
          self.obs_ws.call(obs_requests.SetSceneItemEnabled(...))
          logger.debug(...)
          scenes_modified += 1
  \<close>
  It runs over the list that was fetched. The result is the world, the counter, and
  \<open>False\<close> when a request raised and the loop was left.
\<close>

fun item_loop ::
  "string \<Rightarrow> bool \<Rightarrow> string \<Rightarrow> scene_item list \<Rightarrow> world \<Rightarrow> nat \<Rightarrow> world \<times> nat \<times> bool" where
  "item_loop source_name visible scene_name [] w n = (w, n, True)"
| "item_loop source_name visible scene_name (item # items) w n =
     (if sourceName item = source_name then
        (case call_SetSceneItemEnabled scene_name (sceneItemId item) visible w of
           (w1, ok) \<Rightarrow>
             if ok then
               item_loop source_name visible scene_name items
                 (logger DEBUG (Set_to_in source_name visible scene_name) w1) (n + 1)
             else (w1, n, False))
      else item_loop source_name visible scene_name items w n)"

text \<open>
  \<^verbatim>\<open>fs_source.py\<close>: the body of \<^verbatim>\<open>for scene in all_scenes\<close> has its own
  \<^verbatim>\<open>try ... except Exception: ... continue\<close>.
\<close>

fun Switcher_scene_loop ::
  "string \<Rightarrow> bool \<Rightarrow> string list \<Rightarrow> string list \<Rightarrow> world \<Rightarrow> nat \<Rightarrow> world \<times> nat" where
  "Switcher_scene_loop source_name visible exclude_scenes [] w n = (w, n)"
| "Switcher_scene_loop source_name visible exclude_scenes (scene_name # all_scenes) w n =
     (if scene_name \<in> set exclude_scenes then
        Switcher_scene_loop source_name visible exclude_scenes all_scenes
          (logger DEBUG (Skipping_excluded_scene scene_name) w) n
      else
        (case call_GetSceneItemList scene_name w of
           (w1, None) \<Rightarrow>
             Switcher_scene_loop source_name visible exclude_scenes all_scenes
               (logger DEBUG (Could_not_modify source_name scene_name) w1) n
         | (w1, Some items) \<Rightarrow>
             (case item_loop source_name visible scene_name items w1 n of
                (w2, n2, ok) \<Rightarrow>
                  if ok then Switcher_scene_loop source_name visible exclude_scenes all_scenes w2 n2
                  else
                    Switcher_scene_loop source_name visible exclude_scenes all_scenes
                      (logger DEBUG (Could_not_modify source_name scene_name) w2) n2)))"

text \<open>\<^verbatim>\<open>if exclude_scenes is None: exclude_scenes = []\<close>\<close>

fun or_empty :: "string list option \<Rightarrow> string list" where
  "or_empty None = []"
| "or_empty (Some xs) = xs"

definition Switcher_set_source_visibility_global ::
  "'a FaceDetectionSwitcher_scheme \<Rightarrow> string \<Rightarrow> bool \<Rightarrow> string list option \<Rightarrow> world
     \<Rightarrow> world \<times> bool" where
  "Switcher_set_source_visibility_global self source_name visible exclude_scenes_arg w0 =
     (let exclude_scenes = or_empty exclude_scenes_arg;
          w = invoke \<lparr>target_source_name = source_name, desired_visible = visible,
                      excluded_scenes = exclude_scenes\<rparr> w0
      in
        if \<not> obs_ws self then (w, False)
        else if source_name = [] then (logger WARNING Source_name_not_configured w, False)
        else
          (case call_GetSceneList w of
             (w1, None) \<Rightarrow> (logger ERROR Failed_to_toggle_globally w1, False)
           | (w1, Some all_scenes) \<Rightarrow>
               (case Switcher_scene_loop source_name visible exclude_scenes all_scenes w1 0 of
                  (w2, scenes_modified) \<Rightarrow>
                    if scenes_modified > 0 then
                      (logger INFO
                         (Set_visibility_in_scenes source_name visible scenes_modified exclude_scenes)
                         w2, True)
                    else (logger WARNING (Not_found_in_any_scenes source_name) w2, False))))"

text \<open>
  \<^verbatim>\<open>fs_source_daemon.py\<close>: one optional excluded scene, tested by
  \<^verbatim>\<open>exclude_scene and scene_name == exclude_scene\<close>, and no \<^verbatim>\<open>try\<close> inside the
  loop over the scenes: an exception leaves the loop for the handler of the whole call.
\<close>

fun excluded_by :: "string option \<Rightarrow> string list" where
  "excluded_by None = []"
| "excluded_by (Some e) = (if e = [] then [] else [e])"

fun Daemon_scene_loop ::
  "string \<Rightarrow> bool \<Rightarrow> string option \<Rightarrow> string list \<Rightarrow> world \<Rightarrow> nat \<Rightarrow> world \<times> nat \<times> bool" where
  "Daemon_scene_loop source_name visible exclude_scene [] w n = (w, n, True)"
| "Daemon_scene_loop source_name visible exclude_scene (scene_name # all_scenes) w n =
     (if truthy exclude_scene \<and> Some scene_name = exclude_scene then
        Daemon_scene_loop source_name visible exclude_scene all_scenes
          (logger DEBUG (Skipping_excluded_scene scene_name) w) n
      else
        (case call_GetSceneItemList scene_name w of
           (w1, None) \<Rightarrow> (w1, n, False)
         | (w1, Some items) \<Rightarrow>
             (case item_loop source_name visible scene_name items w1 n of
                (w2, n2, ok) \<Rightarrow>
                  if ok then Daemon_scene_loop source_name visible exclude_scene all_scenes w2 n2
                  else (w2, n2, False))))"

definition Daemon_set_source_visibility_global ::
  "'a FaceDetectionSwitcher_scheme \<Rightarrow> string \<Rightarrow> bool \<Rightarrow> string option \<Rightarrow> world
     \<Rightarrow> world \<times> bool" where
  "Daemon_set_source_visibility_global self source_name visible exclude_scene w0 =
     (let w = invoke \<lparr>target_source_name = source_name, desired_visible = visible,
                      excluded_scenes = excluded_by exclude_scene\<rparr> w0
      in
        if \<not> obs_ws self then (w, False)
        else if source_name = [] then (logger WARNING Source_name_not_configured w, False)
        else
          (case call_GetSceneList w of
             (w1, None) \<Rightarrow> (logger ERROR Failed_to_toggle_globally w1, False)
           | (w1, Some all_scenes) \<Rightarrow>
               (case Daemon_scene_loop source_name visible exclude_scene all_scenes w1 0 of
                  (w2, changes_made, ok) \<Rightarrow>
                    if \<not> ok then (logger ERROR Failed_to_toggle_globally w2, False)
                    else if changes_made > 0 then
                      (logger INFO (Shown_or_hidden_in_scenes source_name visible changes_made) w2,
                       True)
                    else (logger DEBUG (Not_found_in_any_scenes source_name) w2, False))))"


section \<open>Frames and the loops' inputs\<close>

text \<open>
  The detector is a black box (MediaPipe): a frame is represented by what
  \<^verbatim>\<open>detect_face\<close> computes on it, a verdict or an exception inside the library.
  One cycle of a polling loop reads a screenshot (\<open>None\<close>: the request failed) and the
  clock (\<^verbatim>\<open>time.time()\<close>, in abstract units); the daemon's cycle also probes OBS with
  \<^verbatim>\<open>GetVersion\<close>. The preview window (\<^verbatim>\<open>show_preview\<close>, default off), the sleeps and
  \<^verbatim>\<open>KeyboardInterrupt\<close> are not modelled.
\<close>

datatype frame = Face bool | Detector_raises

record cycle =
  capture :: "frame option"
  clock :: nat

record tick = cycle +
  alive :: bool

record attempt =
  connect_ok :: bool
  probe_ok :: bool

record session =
  attempts :: "attempt list"
  ticks :: "tick list"

text \<open>
  How a loop over a finite list of inputs ends: the inputs ran out while it was still
  looping, it returned, or an exception left it.
\<close>

datatype 'a outcome = Running | Returned 'a | Raised

datatype phase = STANDBY | ACTIVE

text \<open>\<^verbatim>\<open>get_source_screenshot\<close>, the same in both files: every exception gives \<open>None\<close>.\<close>

definition get_source_screenshot ::
  "frame option \<Rightarrow> 'a FaceDetectionSwitcher_scheme \<Rightarrow> string \<Rightarrow> world \<Rightarrow> world \<times> frame option" where
  "get_source_screenshot shot self source_name w =
     (if \<not> obs_ws self then (logger ERROR Failed_to_get_source_screenshot w, None)
      else
        (case shot of
           None \<Rightarrow>
             (logger ERROR Failed_to_get_source_screenshot
                (issue (GetSourceScreenshot source_name) w), None)
         | Some img \<Rightarrow> (issue (GetSourceScreenshot source_name) w, Some img)))"

section \<open>fs_source.py: FaceDetectionSwitcher\<close>

text \<open>
  \<^verbatim>\<open>connect_obs\<close>: \<^verbatim>\<open>self.obs_ws\<close> is assigned before \<^verbatim>\<open>connect()\<close> can raise.
\<close>

definition Switcher_connect_obs ::
  "bool \<Rightarrow> FaceDetectionSwitcher \<Rightarrow> world \<Rightarrow> FaceDetectionSwitcher \<times> world \<times> bool" where
  "Switcher_connect_obs connects self w =
     (if connects then (self\<lparr>obs_ws := True\<rparr>, logger INFO Connected_to_OBS w, True)
      else (self\<lparr>obs_ws := True\<rparr>, logger ERROR Failed_to_connect_to_OBS w, False))"

text \<open>\<^verbatim>\<open>disconnect_obs\<close> has no \<^verbatim>\<open>try\<close>: \<open>False\<close> when \<^verbatim>\<open>disconnect()\<close> raises.\<close>

definition Switcher_disconnect_obs :: "FaceDetectionSwitcher \<Rightarrow> world \<Rightarrow> world \<times> bool" where
  "Switcher_disconnect_obs self w =
     (if obs_ws self then
        (if disconnect_fails w then (w, False) else (logger INFO Disconnected_from_OBS w, True))
      else (w, True))"

text \<open>\<^verbatim>\<open>detect_face\<close> has no \<^verbatim>\<open>try\<close>: \<open>None\<close> when the library raises.\<close>

fun Switcher_detect_face :: "frame \<Rightarrow> bool option" where
  "Switcher_detect_face (Face b) = Some b"
| "Switcher_detect_face Detector_raises = None"

text \<open>
  The block \<^verbatim>\<open>if current_face_detected != self.face_detected:\<close> of \<^verbatim>\<open>run\<close>.
  \<^verbatim>\<open>hide_source\<close> is read from the configuration and not used.
\<close>

definition Switcher_toggle ::
  "bool \<Rightarrow> nat \<Rightarrow> FaceDetectionSwitcher \<Rightarrow> world \<Rightarrow> FaceDetectionSwitcher \<times> world" where
  "Switcher_toggle current_face_detected current_time self w =
     (if current_face_detected \<noteq> face_detected self then
        (let self1 = self\<lparr>face_detected := current_face_detected,
                         last_detection_time := current_time\<rparr>;
             show_source = show_source_name (config self);
             exclude_scenes = excluded_by (detection_scene_name (config self))
         in
           if face_detected self1 then
             (let w1 = logger INFO Face_detected_switching w in
                (self1,
                 if truthy show_source then
                   fst (Switcher_set_source_visibility_global self1 (str show_source) True None w1)
                 else w1))
           else
             (let w1 = logger INFO No_face_detected_reverting w in
                (self1,
                 if truthy show_source then
                   fst (Switcher_set_source_visibility_global self1 (str show_source) False
                          (Some exclude_scenes) w1)
                 else w1)))
      else (self, w))"

text \<open>The \<^verbatim>\<open>while True\<close> loop of \<^verbatim>\<open>run\<close>.\<close>

fun Switcher_while ::
  "cycle list \<Rightarrow> FaceDetectionSwitcher \<Rightarrow> world \<Rightarrow> FaceDetectionSwitcher \<times> world \<times> unit outcome" where
  "Switcher_while [] self w = (self, w, Running)"
| "Switcher_while (c # cs) self w =
     (case get_source_screenshot (capture c) self (str (monitor_source_name (config self))) w of
        (w1, None) \<Rightarrow> Switcher_while cs self (logger WARNING Failed_to_get_frame w1)
      | (w1, Some img) \<Rightarrow>
          (case Switcher_detect_face img of
             None \<Rightarrow> (self, w1, Raised)
           | Some current_face_detected \<Rightarrow>
               (case Switcher_toggle current_face_detected (clock c) self w1 of
                  (self2, w2) \<Rightarrow> Switcher_while cs self2 w2)))"

definition Switcher_run ::
  "bool \<Rightarrow> cycle list \<Rightarrow> FaceDetectionSwitcher \<Rightarrow> world
     \<Rightarrow> FaceDetectionSwitcher \<times> world \<times> unit outcome" where
  "Switcher_run connects cycles self0 w0 =
     (case Switcher_connect_obs connects self0 (logger INFO Starting_switcher w0) of
        (self, w, connected) \<Rightarrow>
          if \<not> connected then (self, logger ERROR Cannot_continue_without_OBS w, Returned ())
          else
            (let monitor_source = monitor_source_name (config self);
                 show_source = show_source_name (config self);
                 exclude_scenes = excluded_by (detection_scene_name (config self))
             in
               if \<not> truthy monitor_source then
                 (case Switcher_disconnect_obs self (logger ERROR Monitor_source_not_configured w) of
                    (w1, ok) \<Rightarrow> (self, w1, if ok then Returned () else Raised))
               else
                 (let w1 = logger INFO (Monitoring_source (str monitor_source)) w;
                      w2 = (if truthy show_source then
                              (let w3 = logger INFO (No_face_hide_in_all_scenes (str show_source))
                                          (logger INFO (Face_detected_show_in_all_scenes (str show_source))
                                             (logger INFO (Target_source (str show_source)) w1))
                               in if exclude_scenes \<noteq> [] then
                                    logger INFO (Keep_visible_in (str show_source) exclude_scenes) w3
                                  else w3)
                            else w1)
                  in
                    (case Switcher_while cycles self (logger INFO Face_detection_active w2) of
                       (self1, w4, r) \<Rightarrow>
                         (case r of
                            Running \<Rightarrow> (self1, w4, Running)
                          | _ \<Rightarrow>
                              (case Switcher_disconnect_obs self1 (logger ERROR Runtime_error w4) of
                                 (w5, ok) \<Rightarrow> (self1, w5, if ok then Returned () else Raised)))))))"

section \<open>fs_source_daemon.py: FaceDetectionDaemon\<close>

definition Daemon_disconnect_obs ::
  "FaceDetectionDaemon \<Rightarrow> world \<Rightarrow> FaceDetectionDaemon \<times> world" where
  "Daemon_disconnect_obs self w =
     (if obs_ws self then
        (self\<lparr>obs_ws := False\<rparr>,
         if disconnect_fails w then w else logger INFO Disconnected_from_OBS w)
      else (self, w))"

definition Daemon_connect_obs ::
  "bool \<Rightarrow> FaceDetectionDaemon \<Rightarrow> world \<Rightarrow> FaceDetectionDaemon \<times> world \<times> bool" where
  "Daemon_connect_obs connects self w =
     (if connects then
        (self\<lparr>obs_ws := True, reconnect_attempts := 0\<rparr>, logger INFO Connected_to_OBS w, True)
      else
        (let n = reconnect_attempts self + 1 in
           (self\<lparr>obs_ws := False, reconnect_attempts := n\<rparr>,
            if n \<le> 3 then logger ERROR (Failed_to_connect_attempt n) w
            else if n mod 12 = 0 then logger WARNING (Still_unable_to_connect n) w
            else w,
            False)))"

definition is_obs_active ::
  "bool \<Rightarrow> FaceDetectionDaemon \<Rightarrow> world \<Rightarrow> FaceDetectionDaemon \<times> world \<times> bool" where
  "is_obs_active responds self w =
     (if \<not> obs_ws self then (self, w, False)
      else if responds then (self, issue GetVersion w, True)
      else
        (case Daemon_disconnect_obs self (logger DEBUG OBS_not_responsive (issue GetVersion w)) of
           (self1, w1) \<Rightarrow> (self1, w1, False)))"

text \<open>The daemon's \<^verbatim>\<open>detect_face\<close> catches every exception and answers \<open>False\<close>.\<close>

fun Daemon_detect_face :: "frame \<Rightarrow> world \<Rightarrow> world \<times> bool" where
  "Daemon_detect_face (Face b) w = (w, b)"
| "Daemon_detect_face Detector_raises w = (logger ERROR Face_detection_error w, False)"

fun standby_mode_while ::
  "attempt list \<Rightarrow> FaceDetectionDaemon \<Rightarrow> world \<Rightarrow> FaceDetectionDaemon \<times> world \<times> bool outcome" where
  "standby_mode_while [] self w = (self, w, Running)"
| "standby_mode_while (a # as) self w =
     (case (if \<not> obs_ws self then
              (case Daemon_connect_obs (connect_ok a) self w of
                 (self1, w1, connected) \<Rightarrow>
                   (self1, if connected then logger INFO OBS_connection_established w1 else w1))
            else (self, w)) of
        (self1, w1) \<Rightarrow>
          if \<not> obs_ws self1 then standby_mode_while as self1 w1
          else
            (case is_obs_active (probe_ok a) self1 w1 of
               (self2, w2, active) \<Rightarrow>
                 if active then (self2, logger INFO OBS_is_now_active w2, Returned True)
                 else standby_mode_while as self2 w2))"

definition standby_mode ::
  "attempt list \<Rightarrow> FaceDetectionDaemon \<Rightarrow> world \<Rightarrow> FaceDetectionDaemon \<times> world \<times> bool outcome" where
  "standby_mode as self w = standby_mode_while as self (logger INFO Standby_mode_waiting w)"

text \<open>
  The block \<^verbatim>\<open>if current_face_detected != self.face_detected:\<close> of \<^verbatim>\<open>active_mode\<close>.
\<close>

definition Daemon_toggle ::
  "bool \<Rightarrow> nat \<Rightarrow> FaceDetectionDaemon \<Rightarrow> world \<Rightarrow> FaceDetectionDaemon \<times> world" where
  "Daemon_toggle current_face_detected current_time self w =
     (if current_face_detected \<noteq> face_detected self then
        (let self1 = self\<lparr>face_detected := current_face_detected,
                         last_detection_time := current_time\<rparr>;
             show_source = show_source_name (config self);
             hide_source = hide_source_name (config self);
             exclude_scene = detection_scene_name (config self)
         in
           if face_detected self1 then
             (let w1 = logger INFO Face_detected w;
                  w2 = (if truthy show_source then
                          fst (Daemon_set_source_visibility_global self1 (str show_source) True None w1)
                        else w1);
                  w3 = (if truthy hide_source then
                          fst (Daemon_set_source_visibility_global self1 (str hide_source) False None w2)
                        else w2)
              in (self1, w3))
           else
             (let w1 = logger INFO Face_gone w;
                  w2 = (if truthy show_source then
                          fst (Daemon_set_source_visibility_global self1 (str show_source) False
                                 exclude_scene w1)
                        else w1);
                  w3 = (if truthy hide_source then
                          fst (Daemon_set_source_visibility_global self1 (str hide_source) True None w2)
                        else w2)
              in (self1, w3)))
      else (self, w))"

definition max_consecutive_errors :: nat where
  "max_consecutive_errors = 5"

text \<open>
  The \<^verbatim>\<open>while True\<close> loop of \<^verbatim>\<open>active_mode\<close>; the second argument is the local
  variable \<^verbatim>\<open>consecutive_errors\<close>.
\<close>

fun active_mode_while ::
  "tick list \<Rightarrow> nat \<Rightarrow> FaceDetectionDaemon \<Rightarrow> world \<Rightarrow> FaceDetectionDaemon \<times> world \<times> bool outcome" where
  "active_mode_while [] consecutive_errors self w = (self, w, Running)"
| "active_mode_while (t # ts) consecutive_errors self w =
     (case is_obs_active (alive t) self w of
        (self1, w1, active) \<Rightarrow>
          if \<not> active then
            (let show_source = show_source_name (config self1);
                 hide_source = hide_source_name (config self1);
                 w2 = logger INFO OBS_stopped_returning_to_standby w1;
                 w3 = (if truthy show_source then
                         fst (Daemon_set_source_visibility_global self1 (str show_source) False None w2)
                       else w2);
                 w4 = (if truthy hide_source then
                         fst (Daemon_set_source_visibility_global self1 (str hide_source) True None w3)
                       else w3)
             in (self1\<lparr>face_detected := False\<rparr>, w4, Returned True))
          else
            (case get_source_screenshot (capture t) self1
                    (str (monitor_source_name (config self1))) w1 of
               (w2, None) \<Rightarrow>
                 if consecutive_errors + 1 \<ge> max_consecutive_errors then
                   (self1, logger ERROR Too_many_consecutive_errors w2, Returned False)
                 else active_mode_while ts (consecutive_errors + 1) self1 w2
             | (w2, Some img) \<Rightarrow>
                 (case Daemon_detect_face img w2 of
                    (w3, current_face_detected) \<Rightarrow>
                      (case Daemon_toggle current_face_detected (clock t) self1 w3 of
                         (self2, w4) \<Rightarrow> active_mode_while ts 0 self2 w4))))"

definition active_mode ::
  "tick list \<Rightarrow> FaceDetectionDaemon \<Rightarrow> world \<Rightarrow> FaceDetectionDaemon \<times> world \<times> bool outcome" where
  "active_mode ts self w0 =
     (let w = logger INFO Active_mode_enabled w0;
          monitor_source = monitor_source_name (config self);
          show_source = show_source_name (config self);
          hide_source = hide_source_name (config self)
      in
        if \<not> truthy monitor_source then
          (self, logger ERROR Monitor_source_not_configured w, Returned False)
        else
          (let w1 = logger INFO (Monitoring_source (str monitor_source)) w;
               w2 = (if truthy show_source then logger INFO (Will_show (str show_source)) w1 else w1);
               w3 = (if truthy hide_source then logger INFO (Will_hide (str hide_source)) w2 else w2)
           in active_mode_while ts 0 self w3))"

text \<open>
  The \<^verbatim>\<open>while True\<close> loop of \<^verbatim>\<open>run\<close>, one session of inputs per turn. The phase says
  where the daemon is when the inputs end.
\<close>

fun Daemon_run_while ::
  "session list \<Rightarrow> FaceDetectionDaemon \<Rightarrow> world \<Rightarrow> FaceDetectionDaemon \<times> world \<times> phase" where
  "Daemon_run_while [] self w = (self, w, STANDBY)"
| "Daemon_run_while (s # ss) self w =
     (case standby_mode (attempts s) self w of
        (self1, w1, r1) \<Rightarrow>
          (case r1 of
             Returned ok1 \<Rightarrow>
               if \<not> ok1 then Daemon_run_while ss self1 (logger ERROR Standby_mode_failed w1)
               else
                 (case active_mode (ticks s) self1 w1 of
                    (self2, w2, r2) \<Rightarrow>
                      (case r2 of
                         Returned ok2 \<Rightarrow>
                           if \<not> ok2 then
                             (case Daemon_disconnect_obs self2
                                     (logger WARNING Active_mode_exited_with_error w2) of
                                (self3, w3) \<Rightarrow> Daemon_run_while ss self3 w3)
                           else Daemon_run_while ss self2 w2
                       | _ \<Rightarrow> (self2, w2, ACTIVE)))
           | _ \<Rightarrow> (self1, w1, STANDBY)))"

definition Daemon_run ::
  "session list \<Rightarrow> FaceDetectionDaemon \<Rightarrow> world \<Rightarrow> FaceDetectionDaemon \<times> world \<times> phase" where
  "Daemon_run ss self w =
     Daemon_run_while ss self
       (logger INFO Banner_line
          (logger INFO Daemon_mode_always_running
             (logger INFO Daemon_starting (logger INFO Banner_line w))))"


section \<open>What a call of set_source_visibility_global does, in closed form\<close>

text \<open>
  The definitions of this section are not code: they describe the requests a call sends
  and the items it changes, as functions of the world before the call. The lemmas after
  them prove that the loops above compute exactly this.

  \<open>enable_ids I v\<close> sets the enabled flag of the items whose id is in \<open>I\<close>. An item
  \<open>raises\<close> when it matches and its \<^verbatim>\<open>SetSceneItemEnabled\<close> request raises. In one pass
  over a fetched item list, \<open>counted_ids\<close> are the ids whose request returned, each of
  which adds one to the counter (the matching items before the first one that raises), and
  \<open>requested_ids\<close> those a request was sent for (the same, and the one that raises).
\<close>

definition enable_ids :: "int set \<Rightarrow> bool \<Rightarrow> scene_item list \<Rightarrow> scene_item list" where
  "enable_ids I v items =
     map (\<lambda>item. if sceneItemId item \<in> I then item\<lparr>sceneItemEnabled := v\<rparr> else item) items"

definition raises :: "(int \<Rightarrow> bool) \<Rightarrow> string \<Rightarrow> scene_item \<Rightarrow> bool" where
  "raises fails source_name item = (sourceName item = source_name \<and> fails (sceneItemId item))"

definition counted_ids :: "(int \<Rightarrow> bool) \<Rightarrow> string \<Rightarrow> scene_item list \<Rightarrow> int list" where
  "counted_ids fails source_name items =
     map sceneItemId (filter (\<lambda>item. sourceName item = source_name)
       (takeWhile (\<lambda>item. \<not> raises fails source_name item) items))"

definition requested_ids :: "(int \<Rightarrow> bool) \<Rightarrow> string \<Rightarrow> scene_item list \<Rightarrow> int list" where
  "requested_ids fails source_name items =
     counted_ids fails source_name items
       @ map sceneItemId (take 1 (dropWhile (\<lambda>item. \<not> raises fails source_name item) items))"

text \<open>
  For a scene \<open>s\<close> the loop enters: \<open>scene_counted\<close> are the ids counted there,
  \<open>scene_written\<close> those of them OBS does not refuse, the ids really written,
  \<open>scene_calls\<close> the requests sent, and \<open>scene_raises\<close> says whether an exception leaves
  the loop body (the item list cannot be fetched, or a matching item raises).
  \<open>scene_rejects\<close> says whether OBS refuses the request of some matching item.
  \<open>sync_result source_name v entered w\<close> is the world once the loop has entered the
  scenes \<open>entered\<close>, the log apart, and \<open>sync_count\<close> is what the counter has gained.
  \<open>entered\<close> keeps the listed scenes that are not excluded: the switcher's loop enters
  them all. \<open>reached\<close> cuts such a list after the first scene that raises: the daemon's
  loop gets no further.
\<close>

definition scene_counted :: "world \<Rightarrow> string \<Rightarrow> string \<Rightarrow> int list" where
  "scene_counted w source_name s =
     (if fetch_fails w s then [] else counted_ids (set_fails w s) source_name (scene_items w s))"

definition scene_written :: "world \<Rightarrow> string \<Rightarrow> string \<Rightarrow> int list" where
  "scene_written w source_name s =
     filter (\<lambda>i. \<not> set_rejected w s i) (scene_counted w source_name s)"


definition scene_calls :: "world \<Rightarrow> string \<Rightarrow> bool \<Rightarrow> string \<Rightarrow> request list" where
  "scene_calls w source_name v s =
     GetSceneItemList s #
       (if fetch_fails w s then []
        else map (\<lambda>i. SetSceneItemEnabled s i v)
               (requested_ids (set_fails w s) source_name (scene_items w s)))"

definition scene_raises :: "world \<Rightarrow> string \<Rightarrow> string \<Rightarrow> bool" where
  "scene_raises w source_name s =
     (fetch_fails w s \<or> (\<exists>item \<in> set (scene_items w s). raises (set_fails w s) source_name item))"

definition sync_result :: "string \<Rightarrow> bool \<Rightarrow> string list \<Rightarrow> world \<Rightarrow> world" where
  "sync_result source_name v entered w =
     w\<lparr>scene_items :=
         (\<lambda>s. if s \<in> set entered
              then enable_ids (set (scene_written w source_name s)) v (scene_items w s)
              else scene_items w s),
       calls := calls w @ concat (map (scene_calls w source_name v) entered)\<rparr>"

definition sync_count :: "string \<Rightarrow> string list \<Rightarrow> world \<Rightarrow> nat" where
  "sync_count source_name entered w = sum_list (map (\<lambda>s. length (scene_counted w source_name s)) entered)"

definition entered :: "string list \<Rightarrow> string list \<Rightarrow> string list" where
  "entered exclude_scenes all_scenes = filter (\<lambda>s. s \<notin> set exclude_scenes) all_scenes"

definition reached :: "world \<Rightarrow> string \<Rightarrow> string list \<Rightarrow> string list" where
  "reached w source_name scenes =
     takeWhile (\<lambda>s. \<not> scene_raises w source_name s) scenes
       @ take 1 (dropWhile (\<lambda>s. \<not> scene_raises w source_name s) scenes)"

text \<open>The history record a call leaves in \<open>invoked\<close>.\<close>

definition Switcher_request :: "string \<Rightarrow> bool \<Rightarrow> string list option \<Rightarrow> sync_request" where
  "Switcher_request source_name visible exclude_scenes =
     \<lparr>target_source_name = source_name, desired_visible = visible,
      excluded_scenes = or_empty exclude_scenes\<rparr>"

definition Daemon_request :: "string \<Rightarrow> bool \<Rightarrow> string option \<Rightarrow> sync_request" where
  "Daemon_request source_name visible exclude_scene =
     \<lparr>target_source_name = source_name, desired_visible = visible,
      excluded_scenes = excluded_by exclude_scene\<rparr>"

text \<open>
  What a call may not touch, for a target, a visibility and the excluded scenes: the
  items of excluded scenes, the items with another source name (position by position),
  and every \<^verbatim>\<open>SetSceneItemEnabled\<close> request among the requests the call added is for a
  matching item of a scene that is not excluded, with the visibility asked for.
\<close>

definition untouched_elsewhere :: "string \<Rightarrow> bool \<Rightarrow> string list \<Rightarrow> world \<Rightarrow> world \<Rightarrow> bool" where
  "untouched_elsewhere source_name visible exclude_scenes w w' =
     ((\<forall>s \<in> set exclude_scenes. scene_items w' s = scene_items w s) \<and>
      (\<forall>s. length (scene_items w' s) = length (scene_items w s) \<and>
           (\<forall>k < length (scene_items w s).
              sourceName (scene_items w s ! k) \<noteq> source_name \<longrightarrow>
                scene_items w' s ! k = scene_items w s ! k)) \<and>
      (\<forall>q \<in> set (drop (length (calls w)) (calls w')).
         case q of
           SetSceneItemEnabled s i b \<Rightarrow>
             s \<notin> set exclude_scenes \<and> b = visible \<and>
             (\<exists>item \<in> set (scene_items w s). sceneItemId item = i \<and> sourceName item = source_name)
         | _ \<Rightarrow> True))"



text \<open>
  A request has returned when it is a \<^verbatim>\<open>SetSceneItemEnabled\<close> whose call does not raise,
  whether OBS applied it or refused it; \<open>calls_returned w w'\<close> counts them among the
  requests sent between \<open>w\<close> and \<open>w'\<close>.
\<close>

definition returned :: "world \<Rightarrow> request \<Rightarrow> bool" where
  "returned w q = (case q of SetSceneItemEnabled s i b \<Rightarrow> \<not> set_fails w s i | _ \<Rightarrow> False)"

definition calls_returned :: "world \<Rightarrow> world \<Rightarrow> nat" where
  "calls_returned w w' = length (filter (returned w) (drop (length (calls w)) (calls w')))"

text \<open>The daemon's call completes when no request of it raises.\<close>

definition completes :: "string \<Rightarrow> string option \<Rightarrow> world \<Rightarrow> bool" where
  "completes source_name exclude_scene w =
     (\<not> list_fails w \<and>
      (\<forall>s \<in> set (entered (excluded_by exclude_scene) (scene_list w)).
         \<not> scene_raises w source_name s))"

text \<open>
  The transitions a log shows: the INFO records \<^verbatim>\<open>Face detected!\<close> / \<^verbatim>\<open>Face gone\<close> of
  the daemon and \<^verbatim>\<open>Face detected - switching sources globally\<close> /
  \<^verbatim>\<open>No face detected - reverting sources globally\<close> of the switcher, each with the
  presence state it announces.
\<close>

definition transition_of :: "level \<times> message \<Rightarrow> bool option" where
  "transition_of r =
     (if r = (INFO, Face_detected) \<or> r = (INFO, Face_detected_switching) then Some True
      else if r = (INFO, Face_gone) \<or> r = (INFO, No_face_detected_reverting) then Some False
      else None)"

definition transitions :: "world \<Rightarrow> bool list" where
  "transitions w = List.map_filter transition_of (logged w)"

text \<open>
  The presence state machine in the specification's words: fed a detector output, it
  emits a transition to that value when the value differs from the stored state, and
  nothing when it matches.
\<close>

fun spec_transitions :: "bool \<Rightarrow> bool list \<Rightarrow> bool list" where
  "spec_transitions state [] = []"
| "spec_transitions state (b # bs) =
     (if b \<noteq> state then b # spec_transitions b bs else spec_transitions state bs)"

text \<open>
  The table of the specification's poll loop: the synchronizations of a transition to
  \<open>PRESENT\<close> (\<open>True\<close>) and to \<open>ABSENT\<close> (\<open>False\<close>), each skipped when its target is unset.
\<close>

fun spec_table :: "config \<Rightarrow> bool \<Rightarrow> sync_request list" where
  "spec_table c True =
     (if truthy (show_source_name c)
      then [\<lparr>target_source_name = str (show_source_name c), desired_visible = True,
             excluded_scenes = []\<rparr>] else []) @
     (if truthy (hide_source_name c)
      then [\<lparr>target_source_name = str (hide_source_name c), desired_visible = False,
             excluded_scenes = []\<rparr>] else [])"
| "spec_table c False =
     (if truthy (show_source_name c)
      then [\<lparr>target_source_name = str (show_source_name c), desired_visible = False,
             excluded_scenes = excluded_by (detection_scene_name c)\<rparr>] else []) @
     (if truthy (hide_source_name c)
      then [\<lparr>target_source_name = str (hide_source_name c), desired_visible = True,
             excluded_scenes = []\<rparr>] else [])"

text \<open>
  Cycles in which OBS answers the probe, the screenshot is taken and the detector gives
  the listed verdict; the second component is the clock reading.
\<close>

definition detections :: "(bool \<times> nat) list \<Rightarrow> tick list" where
  "detections bts = map (\<lambda>(b, t). \<lparr>capture = Some (Face b), clock = t, alive = True\<rparr>) bts"

definition Switcher_detections :: "(bool \<times> nat) list \<Rightarrow> cycle list" where
  "Switcher_detections bts = map (\<lambda>(b, t). \<lparr>capture = Some (Face b), clock = t\<rparr>) bts"

section \<open>Example inputs\<close>

text \<open>
  The scenario of the specification: the scenes \<open>Monitor\<close> and \<open>Main\<close> both hold the
  sources \<open>Overlay\<close> and \<open>Idle\<close>, and every request succeeds.
\<close>

definition example_config :: config where
  "example_config =
     \<lparr>monitor_source_name = Some ''Webcam'', detection_scene_name = Some ''Monitor'',
      show_source_name = Some ''Overlay'', hide_source_name = Some ''Idle''\<rparr>"

definition example_world :: world where
  "example_world =
     \<lparr>list_fails = False,
      scene_list = [''Monitor'', ''Main''],
      fetch_fails = (\<lambda>s. False),
      scene_items = (\<lambda>s.
        if s = ''Monitor'' then
          [\<lparr>sourceName = ''Webcam'', sceneItemId = 1, sceneItemEnabled = True\<rparr>,
           \<lparr>sourceName = ''Overlay'', sceneItemId = 2, sceneItemEnabled = False\<rparr>,
           \<lparr>sourceName = ''Idle'', sceneItemId = 3, sceneItemEnabled = True\<rparr>]
        else if s = ''Main'' then
          [\<lparr>sourceName = ''Overlay'', sceneItemId = 1, sceneItemEnabled = False\<rparr>,
           \<lparr>sourceName = ''Idle'', sceneItemId = 2, sceneItemEnabled = True\<rparr>]
        else []),
      set_fails = (\<lambda>s i. False),
      set_rejected = (\<lambda>s i. False),
      disconnect_fails = False,
      calls = [], invoked = [], logged = []\<rparr>"

text \<open>A switcher and a daemon that hold a connection.\<close>

definition example_switcher :: FaceDetectionSwitcher where
  "example_switcher = (Switcher_init example_config)\<lparr>obs_ws := True\<rparr>"

definition example_daemon :: FaceDetectionDaemon where
  "example_daemon = (Daemon_init example_config)\<lparr>obs_ws := True\<rparr>"

text \<open>The specification's scenario: the outputs false, false, true, true, false.\<close>

definition example_outputs :: "(bool \<times> nat) list" where
  "example_outputs = [(False, 1), (False, 2), (True, 3), (True, 4), (False, 5)]"

text \<open>
  The scenes \<open>A\<close>, \<open>B\<close> and \<open>C\<close> each hold the source \<open>Cam\<close>, disabled; fetching the item
  list of \<open>B\<close> fails.
\<close>

definition example_broken_world :: world where
  "example_broken_world =
     \<lparr>list_fails = False,
      scene_list = [''A'', ''B'', ''C''],
      fetch_fails = (\<lambda>s. s = ''B''),
      scene_items = (\<lambda>s. [\<lparr>sourceName = ''Cam'', sceneItemId = 1, sceneItemEnabled = False\<rparr>]),
      set_fails = (\<lambda>s i. False),
      set_rejected = (\<lambda>s i. False),
      disconnect_fails = False,
      calls = [], invoked = [], logged = []\<rparr>"

text \<open>
  One scene holding \<open>Cam\<close> twice, where the request for the first raises. Three scenes
  where \<open>A\<close> holds \<open>Cam\<close> twice and another source, and the item list of \<open>B\<close> fails.
  And the first example with an OBS that refuses every \<^verbatim>\<open>SetSceneItemEnabled\<close>.
\<close>

definition example_raising_world :: world where
  "example_raising_world =
     \<lparr>list_fails = False,
      scene_list = [''A''],
      fetch_fails = (\<lambda>s. False),
      scene_items = (\<lambda>s.
        [\<lparr>sourceName = ''Cam'', sceneItemId = 1, sceneItemEnabled = False\<rparr>,
         \<lparr>sourceName = ''Cam'', sceneItemId = 2, sceneItemEnabled = False\<rparr>]),
      set_fails = (\<lambda>s i. i = 1),
      set_rejected = (\<lambda>s i. False),
      disconnect_fails = False,
      calls = [], invoked = [], logged = []\<rparr>"

definition example_twice_world :: world where
  "example_twice_world =
     \<lparr>list_fails = False,
      scene_list = [''A'', ''B'', ''C''],
      fetch_fails = (\<lambda>s. s = ''B''),
      scene_items = (\<lambda>s.
        if s = ''A'' then
          [\<lparr>sourceName = ''Cam'', sceneItemId = 1, sceneItemEnabled = False\<rparr>,
           \<lparr>sourceName = ''Mic'', sceneItemId = 2, sceneItemEnabled = True\<rparr>,
           \<lparr>sourceName = ''Cam'', sceneItemId = 3, sceneItemEnabled = False\<rparr>]
        else [\<lparr>sourceName = ''Cam'', sceneItemId = 1, sceneItemEnabled = False\<rparr>]),
      set_fails = (\<lambda>s i. False),
      set_rejected = (\<lambda>s i. False),
      disconnect_fails = False,
      calls = [], invoked = [], logged = []\<rparr>"

definition example_refusing_world :: world where
  "example_refusing_world = example_world\<lparr>set_rejected := (\<lambda>s i. True)\<rparr>"

text \<open>
  A session of the daemon: OBS answers, one frame shows a face, then five screenshots in
  a row fail. And a session that ends differently: after the face, OBS stops answering.
\<close>

definition example_failing_ticks :: "tick list" where
  "example_failing_ticks =
     [\<lparr>capture = Some (Face True), clock = 1, alive = True\<rparr>,
      \<lparr>capture = None, clock = 2, alive = True\<rparr>,
      \<lparr>capture = None, clock = 3, alive = True\<rparr>,
      \<lparr>capture = None, clock = 4, alive = True\<rparr>,
      \<lparr>capture = None, clock = 5, alive = True\<rparr>,
      \<lparr>capture = None, clock = 6, alive = True\<rparr>]"

definition example_stopping_ticks :: "tick list" where
  "example_stopping_ticks =
     [\<lparr>capture = Some (Face True), clock = 1, alive = True\<rparr>,
      \<lparr>capture = None, clock = 2, alive = False\<rparr>]"

definition example_sessions :: "session list" where
  "example_sessions =
     [\<lparr>attempts = [\<lparr>connect_ok = True, probe_ok = True\<rparr>], ticks = example_failing_ticks\<rparr>,
      \<lparr>attempts = [\<lparr>connect_ok = True, probe_ok = True\<rparr>], ticks = []\<rparr>]"

section \<open>The loops compute the closed form\<close>

text \<open>The definitions to unfold when a call is evaluated on the example inputs.\<close>

lemmas run_defs =
  Switcher_set_source_visibility_global_def Daemon_set_source_visibility_global_def Let_def
  call_GetSceneList_def call_GetSceneItemList_def call_SetSceneItemEnabled_def
  issue_def invoke_def logger_def set_enabled_def
  example_switcher_def example_daemon_def Switcher_init_def Daemon_init_def example_world_def
  example_config_def example_raising_world_def example_twice_world_def example_refusing_world_def

lemma set_enabled_enable_ids: "set_enabled i v xs = enable_ids {i} v xs"
  by (simp add: set_enabled_def enable_ids_def)

lemma enable_ids_twice: "enable_ids I v (enable_ids J v xs) = enable_ids (I \<union> J) v xs"
  by (induction xs) (auto simp: enable_ids_def)

lemma enable_ids_empty: "enable_ids {} v xs = xs"
  by (simp add: enable_ids_def)

lemma raises_enabled [simp]: "raises f src (item\<lparr>sceneItemEnabled := v\<rparr>) = raises f src item"
  by (simp add: raises_def)

lemma counted_ids_enable_ids: "counted_ids f src (enable_ids I v xs) = counted_ids f src xs"
  by (induction xs) (auto simp: counted_ids_def enable_ids_def)

lemma requested_ids_enable_ids: "requested_ids f src (enable_ids I v xs) = requested_ids f src xs"
proof -
  have "map sceneItemId (take 1 (dropWhile (\<lambda>item. \<not> raises f src item) (enable_ids I v xs)))
      = map sceneItemId (take 1 (dropWhile (\<lambda>item. \<not> raises f src item) xs))"
    by (induction xs) (auto simp: enable_ids_def)
  then show ?thesis
    by (simp add: requested_ids_def counted_ids_enable_ids)
qed

lemma raises_enable_ids:
  "(\<exists>item \<in> set (enable_ids I v xs). raises f src item) = (\<exists>item \<in> set xs. raises f src item)"
  by (induction xs) (auto simp: enable_ids_def)

lemma item_loop_closed:
  "item_loop src v sc its w n =
     (w\<lparr>scene_items := (scene_items w)
           (sc := enable_ids
                    (set (filter (\<lambda>i. \<not> set_rejected w sc i) (counted_ids (set_fails w sc) src its)))
                    v (scene_items w sc)),
        calls := calls w @ map (\<lambda>i. SetSceneItemEnabled sc i v) (requested_ids (set_fails w sc) src its),
        logged := logged w @ map (\<lambda>i. (DEBUG, Set_to_in src v sc)) (counted_ids (set_fails w sc) src its)\<rparr>,
      n + length (counted_ids (set_fails w sc) src its),
      \<not> (\<exists>it \<in> set its. raises (set_fails w sc) src it))"
proof (induction its arbitrary: w n)
  case Nil
  show ?case by (simp add: counted_ids_def requested_ids_def enable_ids_empty)
next
  case (Cons it its)
  show ?case
  proof (cases "sourceName it = src")
    case False
    then show ?thesis
      by (simp add: Cons.IH counted_ids_def requested_ids_def raises_def)
  next
    case True
    show ?thesis
    proof (cases "set_fails w sc (sceneItemId it)")
      case True
      with \<open>sourceName it = src\<close> show ?thesis
        by (simp add: call_SetSceneItemEnabled_def issue_def counted_ids_def requested_ids_def
            raises_def enable_ids_empty)
    next
      case False
      define w1 where "w1 =
        (if set_rejected w sc (sceneItemId it) then issue (SetSceneItemEnabled sc (sceneItemId it) v) w
         else (issue (SetSceneItemEnabled sc (sceneItemId it) v) w)
              \<lparr>scene_items := (scene_items w)(sc := set_enabled (sceneItemId it) v (scene_items w sc))\<rparr>)"
      define w2 where "w2 = logger DEBUG (Set_to_in src v sc) w1"
      have c: "call_SetSceneItemEnabled sc (sceneItemId it) v w = (w1, True)"
        using False by (simp add: call_SetSceneItemEnabled_def w1_def)
      have step: "item_loop src v sc (it # its) w n = item_loop src v sc its w2 (n + 1)"
        using True c by (simp add: w2_def)
      have f: "set_fails w2 sc = set_fails w sc" "set_rejected w2 sc = set_rejected w sc"
        by (simp_all add: w1_def w2_def issue_def logger_def)
      have m': "counted_ids (set_fails w sc) src (it # its)
                  = sceneItemId it # counted_ids (set_fails w sc) src its"
        using True False by (simp add: counted_ids_def raises_def)
      have a': "requested_ids (set_fails w sc) src (it # its)
                  = sceneItemId it # requested_ids (set_fails w sc) src its"
        using True False by (simp add: requested_ids_def m' raises_def)
      have r': "(\<exists>x \<in> set (it # its). raises (set_fails w sc) src x)
                  = (\<exists>x \<in> set its. raises (set_fails w sc) src x)"
        using False by (simp add: raises_def)
      show ?thesis
      proof (cases "set_rejected w sc (sceneItemId it)")
        case True
        then show ?thesis
          unfolding step Cons.IH [of w2 "n + 1"] f m' a' r'
          by (simp add: w2_def w1_def issue_def logger_def fun_upd_def cong: if_cong)
      next
        case False
        then show ?thesis
          unfolding step Cons.IH [of w2 "n + 1"] f m' a' r'
          by (simp add: w2_def w1_def issue_def logger_def set_enabled_enable_ids enable_ids_twice
              Un_commute fun_upd_def cong: if_cong)
      qed
    qed
  qed
qed

lemma scene_counted_logged: "scene_counted (w\<lparr>logged := x\<rparr>) = scene_counted w"
  by (simp add: fun_eq_iff scene_counted_def cong: if_cong)

lemma scene_written_logged: "scene_written (w\<lparr>logged := x\<rparr>) = scene_written w"
  by (simp add: fun_eq_iff scene_written_def scene_counted_logged)

lemma scene_calls_logged: "scene_calls (w\<lparr>logged := x\<rparr>) = scene_calls w"
  by (simp add: fun_eq_iff scene_calls_def cong: if_cong)

lemma sync_result_logged:
  "sync_result src v es (w\<lparr>logged := x\<rparr>) = (sync_result src v es w)\<lparr>logged := x\<rparr>"
  by (simp add: sync_result_def scene_written_logged scene_calls_logged cong: if_cong)

lemma sync_count_logged: "sync_count src es (w\<lparr>logged := x\<rparr>) = sync_count src es w"
  by (simp add: sync_count_def scene_counted_logged)

lemma scene_raises_logged: "scene_raises (w\<lparr>logged := x\<rparr>) = scene_raises w"
  by (simp add: fun_eq_iff scene_raises_def)

lemma scene_counted_sync_result:
  "scene_counted (sync_result src v es w) src = scene_counted w src"
  by (simp add: fun_eq_iff scene_counted_def sync_result_def counted_ids_enable_ids)

lemma scene_written_sync_result:
  "scene_written (sync_result src v es w) src = scene_written w src"
proof -
  have "set_rejected (sync_result src v es w) = set_rejected w"
    by (simp add: sync_result_def)
  then show ?thesis
    by (simp add: fun_eq_iff scene_written_def scene_counted_sync_result)
qed

lemma scene_calls_sync_result:
  "scene_calls (sync_result src v es w) src v = scene_calls w src v"
  by (simp add: fun_eq_iff scene_calls_def sync_result_def requested_ids_enable_ids)

lemma scene_raises_sync_result:
  "scene_raises (sync_result src v es w) src = scene_raises w src"
  by (simp add: fun_eq_iff scene_raises_def sync_result_def raises_enable_ids)



lemma sync_count_sync_result:
  "sync_count src es (sync_result src v es' w) = sync_count src es w"
  by (simp add: sync_count_def scene_counted_sync_result)

lemma sync_count_Cons:
  "sync_count src (s # es) w = length (scene_counted w src s) + sync_count src es w"
  by (simp add: sync_count_def)

lemma sync_result_Nil: "sync_result src v [] w = w"
  by (simp add: sync_result_def)

lemma sync_result_Cons:
  "sync_result src v es (sync_result src v [s] w) = sync_result src v (s # es) w"
proof -
  have "scene_items (sync_result src v es (sync_result src v [s] w)) t
      = scene_items (sync_result src v (s # es) w) t" for t
    unfolding sync_result_def [of src v es] scene_written_sync_result
    by (simp add: sync_result_def enable_ids_twice)
  then have "scene_items (sync_result src v es (sync_result src v [s] w))
      = scene_items (sync_result src v (s # es) w)"
    by (simp add: fun_eq_iff)
  moreover have "calls (sync_result src v es (sync_result src v [s] w))
      = calls (sync_result src v (s # es) w)"
    unfolding sync_result_def [of src v es] scene_calls_sync_result
    by (simp add: sync_result_def)
  ultimately show ?thesis
    unfolding sync_result_def [of src v es]
    by (simp add: sync_result_def)
qed

lemma fetch_None:
  assumes "fetch_fails w sc"
  shows "call_GetSceneItemList sc w = (sync_result src v [sc] w, None)"
    and "scene_counted w src sc = []" and "scene_raises w src sc"
proof -
  have "(\<lambda>s. if s = sc then enable_ids {} v (scene_items w s) else scene_items w s) = scene_items w"
    by (simp add: fun_eq_iff enable_ids_empty)
  with assms show "call_GetSceneItemList sc w = (sync_result src v [sc] w, None)"
    by (simp add: call_GetSceneItemList_def sync_result_def scene_counted_def scene_written_def
        scene_calls_def issue_def cong: if_cong)
  from assms show "scene_counted w src sc = []" by (simp add: scene_counted_def)
  from assms show "scene_raises w src sc" by (simp add: scene_raises_def)
qed

lemma fetch_Some:
  assumes "\<not> fetch_fails w sc"
  shows "\<exists>w1 L. call_GetSceneItemList sc w = (w1, Some (scene_items w sc)) \<and>
           item_loop src v sc (scene_items w sc) w1 n =
             ((sync_result src v [sc] w)\<lparr>logged := logged w @ L\<rparr>,
              n + length (scene_counted w src sc), \<not> scene_raises w src sc) \<and>
           fst ` set L \<subseteq> {DEBUG}"
proof -
  let ?w1 = "issue (GetSceneItemList sc) w"
  let ?L = "map (\<lambda>i. (DEBUG, Set_to_in src v sc)) (counted_ids (set_fails w sc) src (scene_items w sc))"
  have c: "call_GetSceneItemList sc w = (?w1, Some (scene_items w sc))"
    using assms by (simp add: call_GetSceneItemList_def)
  have "item_loop src v sc (scene_items w sc) ?w1 n =
             ((sync_result src v [sc] w)\<lparr>logged := logged w @ ?L\<rparr>,
              n + length (scene_counted w src sc), \<not> scene_raises w src sc)"
    unfolding item_loop_closed using assms
    by (simp add: issue_def sync_result_def scene_counted_def scene_written_def scene_calls_def
        scene_raises_def fun_upd_def cong: if_cong)
  moreover have "fst ` set ?L \<subseteq> {DEBUG}" by auto
  ultimately show ?thesis using c by blast
qed

lemma Switcher_scene_loop_closed:
  "Switcher_scene_loop src v ex scs w n = (w', n') \<Longrightarrow>
     w' = (sync_result src v (entered ex scs) w)\<lparr>logged := logged w'\<rparr> \<and>
     n' = n + sync_count src (entered ex scs) w"
proof (induction scs arbitrary: w n)
  case Nil
  then show ?case by (auto simp: entered_def sync_result_Nil sync_count_def)
next
  case (Cons sc scs)
  show ?case
  proof (cases "sc \<in> set ex")
    case True
    with Cons.prems have
      "Switcher_scene_loop src v ex scs (logger DEBUG (Skipping_excluded_scene sc) w) n = (w', n')"
      by simp
    from Cons.IH [OF this] True show ?thesis
      by (simp add: entered_def logger_def sync_result_logged sync_count_logged)
  next
    case False
    have "\<exists>x. Switcher_scene_loop src v ex scs ((sync_result src v [sc] w)\<lparr>logged := x\<rparr>)
                 (n + length (scene_counted w src sc)) = (w', n')"
    proof (cases "fetch_fails w sc")
      case True
      from Cons.prems False fetch_None(1) [OF True, of src v] fetch_None(2) [OF True, of src]
      show ?thesis
        by (auto simp: logger_def)
    next
      case f: False
      from fetch_Some [OF f, where src = src and v = v and n = n] obtain w1 L where
        c: "call_GetSceneItemList sc w = (w1, Some (scene_items w sc))"
        and i: "item_loop src v sc (scene_items w sc) w1 n =
             ((sync_result src v [sc] w)\<lparr>logged := logged w @ L\<rparr>,
              n + length (scene_counted w src sc), \<not> scene_raises w src sc)"
        by blast
      from Cons.prems False c i show ?thesis
        by (auto simp: logger_def split: if_splits)
    qed
    then obtain x where
      "Switcher_scene_loop src v ex scs ((sync_result src v [sc] w)\<lparr>logged := x\<rparr>)
                 (n + length (scene_counted w src sc)) = (w', n')" ..
    from Cons.IH [OF this] False show ?thesis
      by (simp add: entered_def sync_result_logged [symmetric] sync_count_logged
          sync_result_Cons sync_count_sync_result sync_count_Cons)
  qed
qed

lemma excluded_by_iff: "(truthy e \<and> Some sc = e) = (sc \<in> set (excluded_by e))"
  by (cases e) auto

lemma reached_logged: "reached (w\<lparr>logged := x\<rparr>) = reached w"
  by (simp add: fun_eq_iff reached_def scene_raises_logged)

lemma reached_sync_result: "reached (sync_result src v es w) src = reached w src"
  by (simp add: fun_eq_iff reached_def scene_raises_sync_result)

lemma Daemon_scene_loop_closed:
  "Daemon_scene_loop src v e scs w n = (w', n', ok) \<Longrightarrow>
     w' = (sync_result src v (reached w src (entered (excluded_by e) scs)) w)\<lparr>logged := logged w'\<rparr> \<and>
     n' = n + sync_count src (reached w src (entered (excluded_by e) scs)) w \<and>
     ok = (\<not> (\<exists>s \<in> set (entered (excluded_by e) scs). scene_raises w src s))"
proof (induction scs arbitrary: w n)
  case Nil
  then show ?case by (auto simp: entered_def reached_def sync_result_Nil sync_count_def)
next
  case (Cons sc scs)
  show ?case
  proof (cases "sc \<in> set (excluded_by e)")
    case True
    with Cons.prems have
      "Daemon_scene_loop src v e scs (logger DEBUG (Skipping_excluded_scene sc) w) n = (w', n', ok)"
      by (simp add: excluded_by_iff)
    from Cons.IH [OF this] True show ?thesis
      by (simp add: entered_def logger_def sync_result_logged sync_count_logged reached_logged
          scene_raises_logged)
  next
    case False
    note ex = False
    show ?thesis
    proof (cases "scene_raises w src sc")
      case True
      have r: "reached w src (entered (excluded_by e) (sc # scs)) = [sc]"
        using True ex by (simp add: reached_def entered_def)
      have "w' = (sync_result src v [sc] w)\<lparr>logged := logged w'\<rparr> \<and>
            n' = n + length (scene_counted w src sc) \<and> \<not> ok"
      proof (cases "fetch_fails w sc")
        case True
        from Cons.prems ex fetch_None(1) [OF True, of src v] fetch_None(2) [OF True, of src]
        show ?thesis
          by (auto simp: excluded_by_iff)
      next
        case f: False
        from fetch_Some [OF f, where src = src and v = v and n = n] obtain w1 L where
          c: "call_GetSceneItemList sc w = (w1, Some (scene_items w sc))"
          and i: "item_loop src v sc (scene_items w sc) w1 n =
             ((sync_result src v [sc] w)\<lparr>logged := logged w @ L\<rparr>,
              n + length (scene_counted w src sc), \<not> scene_raises w src sc)"
          by blast
        from Cons.prems ex c i True show ?thesis
          by (auto simp: excluded_by_iff)
      qed
      with r True ex show ?thesis
        by (auto simp: sync_count_Cons sync_count_def entered_def)
    next
      case False
      then have f: "\<not> fetch_fails w sc" by (simp add: scene_raises_def)
      from fetch_Some [OF f, where src = src and v = v and n = n] obtain w1 L where
        c: "call_GetSceneItemList sc w = (w1, Some (scene_items w sc))"
        and i: "item_loop src v sc (scene_items w sc) w1 n =
             ((sync_result src v [sc] w)\<lparr>logged := logged w @ L\<rparr>,
              n + length (scene_counted w src sc), \<not> scene_raises w src sc)"
        by blast
      from Cons.prems ex c i False have
        "Daemon_scene_loop src v e scs ((sync_result src v [sc] w)\<lparr>logged := logged w @ L\<rparr>)
           (n + length (scene_counted w src sc)) = (w', n', ok)"
        by (simp add: excluded_by_iff)
      from Cons.IH [OF this] have
        "w' = (sync_result src v (sc # reached w src (entered (excluded_by e) scs)) w)\<lparr>logged := logged w'\<rparr>"
        and "n' = n + sync_count src (sc # reached w src (entered (excluded_by e) scs)) w"
        and "ok = (\<not> (\<exists>s \<in> set (entered (excluded_by e) scs). scene_raises w src s))"
        by (simp_all add: sync_result_logged [symmetric] sync_count_logged reached_logged
            scene_raises_logged reached_sync_result scene_raises_sync_result
            sync_result_Cons sync_count_sync_result sync_count_Cons)
      moreover have "reached w src (entered (excluded_by e) (sc # scs))
          = sc # reached w src (entered (excluded_by e) scs)"
        using False ex by (simp add: reached_def entered_def)
      moreover have "(\<exists>s \<in> set (entered (excluded_by e) (sc # scs)). scene_raises w src s)
          = (\<exists>s \<in> set (entered (excluded_by e) scs). scene_raises w src s)"
        using False ex by (simp add: entered_def)
      ultimately show ?thesis by simp
    qed
  qed
qed

lemma item_loop_logged:
  "item_loop src v sc its w n = (w', n', ok) \<Longrightarrow>
     \<exists>L. logged w' = logged w @ L \<and> fst ` set L \<subseteq> {DEBUG}"
  unfolding item_loop_closed by auto

lemma Switcher_scene_loop_logged:
  "Switcher_scene_loop src v ex scs w n = (w', n') \<Longrightarrow>
     \<exists>L. logged w' = logged w @ L \<and> fst ` set L \<subseteq> {DEBUG}"
proof (induction scs arbitrary: w n)
  case Nil
  then show ?case by simp
next
  case (Cons sc scs)
  have "\<exists>w2 n2 L2. Switcher_scene_loop src v ex scs w2 n2 = (w', n') \<and>
          logged w2 = logged w @ L2 \<and> fst ` set L2 \<subseteq> {DEBUG}"
  proof (cases "sc \<in> set ex")
    case True
    with Cons.prems show ?thesis
      by (auto simp: logger_def intro!: exI [of _ "[(DEBUG, Skipping_excluded_scene sc)]"])
  next
    case False
    show ?thesis
    proof (cases "fetch_fails w sc")
      case True
      with Cons.prems False show ?thesis
        by (auto simp: logger_def call_GetSceneItemList_def issue_def
            intro!: exI [of _ "[(DEBUG, Could_not_modify src sc)]"])
    next
      case f: False
      obtain w2 n2 ok where i:
        "item_loop src v sc (scene_items w sc) (issue (GetSceneItemList sc) w) n = (w2, n2, ok)"
        by (metis prod_cases3)
      from item_loop_logged [OF i] obtain L where
        L: "logged w2 = logged w @ L" "fst ` set L \<subseteq> {DEBUG}"
        by (auto simp: issue_def)
      show ?thesis
      proof (cases ok)
        case True
        with Cons.prems False f i L show ?thesis
          by (auto simp: call_GetSceneItemList_def)
      next
        case nok: False
        have "logged (logger DEBUG (Could_not_modify src sc) w2)
                = logged w @ (L @ [(DEBUG, Could_not_modify src sc)])"
          using L by (simp add: logger_def)
        moreover have "fst ` set (L @ [(DEBUG, Could_not_modify src sc)]) \<subseteq> {DEBUG}"
          using L by auto
        moreover have "Switcher_scene_loop src v ex scs (logger DEBUG (Could_not_modify src sc) w2) n2
                = (w', n')"
          using Cons.prems False f i nok by (simp add: call_GetSceneItemList_def)
        ultimately show ?thesis by blast
      qed
    qed
  qed
  then obtain w2 n2 L2 where s: "Switcher_scene_loop src v ex scs w2 n2 = (w', n')"
    and L2: "logged w2 = logged w @ L2" "fst ` set L2 \<subseteq> {DEBUG}"
    by blast
  from Cons.IH [OF s] obtain L where "logged w' = logged w2 @ L" "fst ` set L \<subseteq> {DEBUG}"
    by blast
  with L2 have "logged w' = logged w @ (L2 @ L)" "fst ` set (L2 @ L) \<subseteq> {DEBUG}"
    by auto
  then show ?case by blast
qed

lemma Daemon_scene_loop_logged:
  "Daemon_scene_loop src v e scs w n = (w', n', ok) \<Longrightarrow>
     \<exists>L. logged w' = logged w @ L \<and> fst ` set L \<subseteq> {DEBUG}"
proof (induction scs arbitrary: w n)
  case Nil
  then show ?case by simp
next
  case (Cons sc scs)
  show ?case
  proof (cases "sc \<in> set (excluded_by e)")
    case True
    with Cons.prems have
      "Daemon_scene_loop src v e scs (logger DEBUG (Skipping_excluded_scene sc) w) n = (w', n', ok)"
      by (simp add: excluded_by_iff)
    from Cons.IH [OF this] obtain L where
      "logged w' = logged w @ ((DEBUG, Skipping_excluded_scene sc) # L)" "fst ` set L \<subseteq> {DEBUG}"
      by (auto simp: logger_def)
    then have "logged w' = logged w @ ((DEBUG, Skipping_excluded_scene sc) # L) \<and>
        fst ` set ((DEBUG, Skipping_excluded_scene sc) # L) \<subseteq> {DEBUG}"
      by simp
    then show ?thesis by blast
  next
    case False
    show ?thesis
    proof (cases "fetch_fails w sc")
      case True
      with Cons.prems False have "logged w' = logged w @ []"
        by (auto simp: call_GetSceneItemList_def issue_def excluded_by_iff)
      then show ?thesis by (intro exI [of _ "[]"]) simp
    next
      case f: False
      obtain w2 n2 ok2 where i:
        "item_loop src v sc (scene_items w sc) (issue (GetSceneItemList sc) w) n = (w2, n2, ok2)"
        by (metis prod_cases3)
      from item_loop_logged [OF i] obtain L where
        L: "logged w2 = logged w @ L" "fst ` set L \<subseteq> {DEBUG}"
        by (auto simp: issue_def)
      show ?thesis
      proof (cases ok2)
        case True
        with Cons.prems False f i have "Daemon_scene_loop src v e scs w2 n2 = (w', n', ok)"
          by (simp add: call_GetSceneItemList_def excluded_by_iff)
        from Cons.IH [OF this] obtain L' where "logged w' = logged w2 @ L'" "fst ` set L' \<subseteq> {DEBUG}"
          by blast
        with L have "logged w' = logged w @ (L @ L')" "fst ` set (L @ L') \<subseteq> {DEBUG}"
          by auto
        then show ?thesis by blast
      next
        case nok: False
        with Cons.prems False f i have "w' = w2"
          by (simp add: call_GetSceneItemList_def excluded_by_iff)
        with L show ?thesis by blast
      qed
    qed
  qed
qed

lemma scene_counted_invoked: "scene_counted (w\<lparr>invoked := x\<rparr>) = scene_counted w"
  by (simp add: fun_eq_iff scene_counted_def cong: if_cong)

lemma scene_counted_calls: "scene_counted (w\<lparr>calls := x\<rparr>) = scene_counted w"
  by (simp add: fun_eq_iff scene_counted_def cong: if_cong)

lemma scene_written_invoked: "scene_written (w\<lparr>invoked := x\<rparr>) = scene_written w"
  by (simp add: fun_eq_iff scene_written_def scene_counted_invoked)

lemma scene_written_calls: "scene_written (w\<lparr>calls := x\<rparr>) = scene_written w"
  by (simp add: fun_eq_iff scene_written_def scene_counted_calls)

lemma scene_calls_invoked: "scene_calls (w\<lparr>invoked := x\<rparr>) = scene_calls w"
  by (simp add: fun_eq_iff scene_calls_def cong: if_cong)

lemma scene_calls_calls: "scene_calls (w\<lparr>calls := x\<rparr>) = scene_calls w"
  by (simp add: fun_eq_iff scene_calls_def cong: if_cong)

lemma sync_result_invoked:
  "sync_result src v es (w\<lparr>invoked := x\<rparr>) = (sync_result src v es w)\<lparr>invoked := x\<rparr>"
  by (simp add: sync_result_def scene_written_invoked scene_calls_invoked cong: if_cong)

lemma sync_result_calls:
  "sync_result src v es (w\<lparr>calls := c\<rparr>)
     = (sync_result src v es w)\<lparr>calls := c @ concat (map (scene_calls w src v) es)\<rparr>"
  by (simp add: sync_result_def scene_written_calls scene_calls_calls cong: if_cong)

lemma sync_count_invoked: "sync_count src es (w\<lparr>invoked := x\<rparr>) = sync_count src es w"
  by (simp add: sync_count_def scene_counted_invoked)

lemma sync_count_calls: "sync_count src es (w\<lparr>calls := x\<rparr>) = sync_count src es w"
  by (simp add: sync_count_def scene_counted_calls)

lemma reached_prelude:
  "reached (issue GetSceneList (invoke rq w)) = reached w"
  by (simp add: fun_eq_iff reached_def scene_raises_def issue_def invoke_def)

lemma scene_raises_prelude:
  "scene_raises (issue GetSceneList (invoke rq w)) = scene_raises w"
  by (simp add: fun_eq_iff scene_raises_def issue_def invoke_def)

lemma Switcher_sync_early:
  "\<not> obs_ws self \<Longrightarrow> Switcher_set_source_visibility_global self src v exa w
      = (invoke (Switcher_request src v exa) w, False)"
  "obs_ws self \<Longrightarrow> src = [] \<Longrightarrow> Switcher_set_source_visibility_global self src v exa w
      = (logger WARNING Source_name_not_configured (invoke (Switcher_request src v exa) w), False)"
  "obs_ws self \<Longrightarrow> src \<noteq> [] \<Longrightarrow> list_fails w \<Longrightarrow>
     Switcher_set_source_visibility_global self src v exa w
      = (logger ERROR Failed_to_toggle_globally
           (issue GetSceneList (invoke (Switcher_request src v exa) w)), False)"
  by (simp_all add: Switcher_set_source_visibility_global_def Switcher_request_def Let_def
      call_GetSceneList_def invoke_def issue_def)

lemma Daemon_sync_early:
  "\<not> obs_ws self \<Longrightarrow> Daemon_set_source_visibility_global self src v e w
      = (invoke (Daemon_request src v e) w, False)"
  "obs_ws self \<Longrightarrow> src = [] \<Longrightarrow> Daemon_set_source_visibility_global self src v e w
      = (logger WARNING Source_name_not_configured (invoke (Daemon_request src v e) w), False)"
  "obs_ws self \<Longrightarrow> src \<noteq> [] \<Longrightarrow> list_fails w \<Longrightarrow>
     Daemon_set_source_visibility_global self src v e w
      = (logger ERROR Failed_to_toggle_globally
           (issue GetSceneList (invoke (Daemon_request src v e) w)), False)"
  by (simp_all add: Daemon_set_source_visibility_global_def Daemon_request_def Let_def
      call_GetSceneList_def invoke_def issue_def)

lemma Switcher_sync_closed:
  assumes "obs_ws self" "src \<noteq> []" "\<not> list_fails w"
    and E_def: "E = entered (or_empty exa) (scene_list w)"
  shows "\<exists>L. fst ` set L \<subseteq> {DEBUG} \<and>
    Switcher_set_source_visibility_global self src v exa w =
      ((sync_result src v E w)
         \<lparr>calls := calls w @ GetSceneList # concat (map (scene_calls w src v) E),
          invoked := invoked w @ [Switcher_request src v exa],
          logged := logged w @ L @
            [if 0 < sync_count src E w
             then (INFO, Set_visibility_in_scenes src v (sync_count src E w) (or_empty exa))
             else (WARNING, Not_found_in_any_scenes src)]\<rparr>,
       0 < sync_count src E w)"
proof -
  define w1 where "w1 = issue GetSceneList (invoke (Switcher_request src v exa) w)"
  obtain w2 n where loop: "Switcher_scene_loop src v (or_empty exa) (scene_list w) w1 0 = (w2, n)"
    by (cases "Switcher_scene_loop src v (or_empty exa) (scene_list w) w1 0")
  from Switcher_scene_loop_logged [OF loop] obtain L where
    L: "logged w2 = logged w1 @ L" "fst ` set L \<subseteq> {DEBUG}" by blast
  from Switcher_scene_loop_closed [OF loop] have
    w2: "w2 = (sync_result src v E w1)\<lparr>logged := logged w2\<rparr>" and n: "n = sync_count src E w1"
    by (simp_all add: E_def)
  have n': "n = sync_count src E w"
    by (simp add: n w1_def issue_def invoke_def sync_count_invoked sync_count_calls)
  have r1: "sync_result src v E w1 = (sync_result src v E w)
         \<lparr>calls := calls w @ GetSceneList # concat (map (scene_calls w src v) E),
          invoked := invoked w @ [Switcher_request src v exa]\<rparr>"
    by (simp add: w1_def issue_def invoke_def sync_result_invoked sync_result_calls scene_calls_invoked)
  have l1: "logged w1 = logged w"
    by (simp add: w1_def issue_def invoke_def)
  have "Switcher_set_source_visibility_global self src v exa w =
      (if 0 < n then (logger INFO (Set_visibility_in_scenes src v n (or_empty exa)) w2, True)
       else (logger WARNING (Not_found_in_any_scenes src) w2, False))"
    using assms(1-3) loop
    by (simp add: Switcher_set_source_visibility_global_def Let_def call_GetSceneList_def
        w1_def Switcher_request_def invoke_def issue_def)
  also have "\<dots> = ((sync_result src v E w)
         \<lparr>calls := calls w @ GetSceneList # concat (map (scene_calls w src v) E),
          invoked := invoked w @ [Switcher_request src v exa],
          logged := logged w @ L @
            [if 0 < sync_count src E w
             then (INFO, Set_visibility_in_scenes src v (sync_count src E w) (or_empty exa))
             else (WARNING, Not_found_in_any_scenes src)]\<rparr>,
       0 < sync_count src E w)"
    apply (subst (1 2) w2)
    apply (simp add: logger_def r1 L l1 n')
    done
  finally show ?thesis using L(2) by blast
qed

lemma Daemon_sync_closed:
  assumes "obs_ws self" "src \<noteq> []" "\<not> list_fails w"
    and E_def: "E = reached w src (entered (excluded_by e) (scene_list w))"
    and ok_def: "ok = (\<not> (\<exists>s \<in> set (entered (excluded_by e) (scene_list w)). scene_raises w src s))"
  shows "\<exists>L. fst ` set L \<subseteq> {DEBUG} \<and>
    Daemon_set_source_visibility_global self src v e w =
      ((sync_result src v E w)
         \<lparr>calls := calls w @ GetSceneList # concat (map (scene_calls w src v) E),
          invoked := invoked w @ [Daemon_request src v e],
          logged := logged w @ L @
            [if \<not> ok then (ERROR, Failed_to_toggle_globally)
             else if 0 < sync_count src E w
             then (INFO, Shown_or_hidden_in_scenes src v (sync_count src E w))
             else (DEBUG, Not_found_in_any_scenes src)]\<rparr>,
       ok \<and> 0 < sync_count src E w)"
proof -
  define w1 where "w1 = issue GetSceneList (invoke (Daemon_request src v e) w)"
  obtain w2 n ok2 where loop: "Daemon_scene_loop src v e (scene_list w) w1 0 = (w2, n, ok2)"
    by (metis prod_cases3)
  from Daemon_scene_loop_logged [OF loop] obtain L where
    L: "logged w2 = logged w1 @ L" "fst ` set L \<subseteq> {DEBUG}" by blast
  from Daemon_scene_loop_closed [OF loop] have
    w2: "w2 = (sync_result src v E w1)\<lparr>logged := logged w2\<rparr>"
    and n: "n = sync_count src E w1" and ok2: "ok2 = ok"
    by (simp_all add: E_def ok_def w1_def reached_prelude scene_raises_prelude)
  have n': "n = sync_count src E w"
    by (simp add: n w1_def issue_def invoke_def sync_count_invoked sync_count_calls)
  have r1: "sync_result src v E w1 = (sync_result src v E w)
         \<lparr>calls := calls w @ GetSceneList # concat (map (scene_calls w src v) E),
          invoked := invoked w @ [Daemon_request src v e]\<rparr>"
    by (simp add: w1_def issue_def invoke_def sync_result_invoked sync_result_calls
        scene_calls_invoked)
  have l1: "logged w1 = logged w"
    by (simp add: w1_def issue_def invoke_def)
  have "Daemon_set_source_visibility_global self src v e w =
      (if \<not> ok2 then (logger ERROR Failed_to_toggle_globally w2, False)
       else if 0 < n then (logger INFO (Shown_or_hidden_in_scenes src v n) w2, True)
       else (logger DEBUG (Not_found_in_any_scenes src) w2, False))"
    using assms(1-3) loop
    by (simp add: Daemon_set_source_visibility_global_def Let_def call_GetSceneList_def
        w1_def Daemon_request_def invoke_def issue_def)
  also have "\<dots> = ((sync_result src v E w)
         \<lparr>calls := calls w @ GetSceneList # concat (map (scene_calls w src v) E),
          invoked := invoked w @ [Daemon_request src v e],
          logged := logged w @ L @
            [if \<not> ok then (ERROR, Failed_to_toggle_globally)
             else if 0 < sync_count src E w
             then (INFO, Shown_or_hidden_in_scenes src v (sync_count src E w))
             else (DEBUG, Not_found_in_any_scenes src)]\<rparr>,
       ok \<and> 0 < sync_count src E w)"
    apply (subst (1 2 3) w2)
    apply (simp add: logger_def r1 L l1 n' ok2)
    done
  finally show ?thesis using L(2) by blast
qed

section \<open>No connection, no effect\<close>

text \<open>
  C9. When \<^verbatim>\<open>self.obs_ws\<close> is \<^verbatim>\<open>None\<close>, \<^verbatim>\<open>set_source_visibility_global\<close> returns
  \<open>False\<close> at once, in both programs: no request is sent, no exception is raised (the
  call returns a value), and no scene item changes.
\<close>

theorem no_connection_no_effect:
  "\<not> obs_ws switcher \<Longrightarrow> \<not> obs_ws daemon \<Longrightarrow>
     snd (Switcher_set_source_visibility_global switcher source_name visible exclude_scenes w) = False \<and>
     snd (Daemon_set_source_visibility_global daemon source_name visible exclude_scene w) = False \<and>
     calls (fst (Switcher_set_source_visibility_global switcher source_name visible exclude_scenes w))
       = calls w \<and>
     calls (fst (Daemon_set_source_visibility_global daemon source_name visible exclude_scene w))
       = calls w \<and>
     scene_items (fst (Switcher_set_source_visibility_global switcher source_name visible exclude_scenes w))
       = scene_items w \<and>
     scene_items (fst (Daemon_set_source_visibility_global daemon source_name visible exclude_scene w))
       = scene_items w"
  by (simp add: Switcher_sync_early(1) Daemon_sync_early(1) invoke_def)

theorem no_connection_no_effect_witness:
  "\<not> obs_ws (Switcher_init example_config) \<and> \<not> obs_ws (Daemon_init example_config) \<and>
   snd (Switcher_set_source_visibility_global (Switcher_init example_config) ''Overlay'' True None
          example_world) = False \<and>
   calls (fst (Daemon_set_source_visibility_global (Daemon_init example_config) ''Overlay'' True None
          example_world)) = []"
proof -
  have a: "\<not> obs_ws (Switcher_init example_config)" by (simp add: Switcher_init_def)
  have b: "\<not> obs_ws (Daemon_init example_config)" by (simp add: Daemon_init_def)
  from no_connection_no_effect [OF a b, of "''Overlay''" True None example_world None] a b
  show ?thesis by (simp add: example_world_def)
qed

lemma counted_ids_subset:
  "set (counted_ids f src xs) \<subseteq> sceneItemId ` {item \<in> set xs. sourceName item = src}"
  by (auto simp: counted_ids_def dest: set_takeWhileD)

lemma requested_ids_subset:
  "set (requested_ids f src xs) \<subseteq> sceneItemId ` {item \<in> set xs. sourceName item = src}"
proof -
  have "set (take 1 (dropWhile (\<lambda>item. \<not> raises f src item) xs))
          \<subseteq> {item \<in> set xs. sourceName item = src}"
  proof (cases "dropWhile (\<lambda>item. \<not> raises f src item) xs")
    case Nil
    show ?thesis unfolding Nil by simp
  next
    case (Cons y ys)
    then have "y \<in> set xs" by (metis list.set_intros(1) set_dropWhileD)
    moreover from Cons have "raises f src y" by (metis hd_dropWhile list.sel(1) list.distinct(1))
    ultimately show ?thesis using Cons by (simp add: raises_def)
  qed
  with counted_ids_subset [of f src xs] show ?thesis
    by (auto simp: requested_ids_def)
qed

lemma enable_ids_length [simp]: "length (enable_ids I v xs) = length xs"
  by (simp add: enable_ids_def)

lemma enable_ids_nth_other:
  assumes "distinct (map sceneItemId xs)" "k < length xs" "sourceName (xs ! k) \<noteq> src"
    and "I \<subseteq> sceneItemId ` {item \<in> set xs. sourceName item = src}"
  shows "enable_ids I v xs ! k = xs ! k"
proof -
  have "sceneItemId (xs ! k) \<notin> I"
  proof
    assume "sceneItemId (xs ! k) \<in> I"
    with assms(4) obtain item where i: "item \<in> set xs" "sourceName item = src"
      "sceneItemId item = sceneItemId (xs ! k)" by auto
    from assms(1) have "inj_on sceneItemId (set xs)" by (simp add: distinct_map)
    with i assms(2) have "item = xs ! k" by (meson inj_onD nth_mem)
    with i assms(3) show False by simp
  qed
  with assms(2) show ?thesis by (simp add: enable_ids_def)
qed

lemma untouched_elsewhere_sync_result:
  assumes d: "\<forall>s \<in> set (scene_list w). distinct (map sceneItemId (scene_items w s))"
    and E: "set E \<subseteq> set (entered ex (scene_list w))"
    and si: "scene_items w' = scene_items (sync_result src v E w)"
    and c: "calls w' = calls w @ C" "set C \<subseteq> insert GetSceneList (set (concat (map (scene_calls w src v) E)))"
  shows "untouched_elsewhere src v ex w w'"
proof -
  have e: "s \<in> set E \<Longrightarrow> s \<notin> set ex \<and> s \<in> set (scene_list w)" for s
    using E by (auto simp: entered_def)
  have a: "\<forall>s \<in> set ex. scene_items w' s = scene_items w s"
    using e by (auto simp: si sync_result_def)
  have b: "length (scene_items w' s) = length (scene_items w s) \<and>
           (\<forall>k < length (scene_items w s).
              sourceName (scene_items w s ! k) \<noteq> src \<longrightarrow>
                scene_items w' s ! k = scene_items w s ! k)" for s
  proof (cases "s \<in> set E")
    case False
    then show ?thesis by (simp add: si sync_result_def)
  next
    case True
    with e d have ds: "distinct (map sceneItemId (scene_items w s))" by blast
    have sub: "set (scene_written w src s) \<subseteq> sceneItemId ` {item \<in> set (scene_items w s). sourceName item = src}"
      using counted_ids_subset [of "set_fails w s" src "scene_items w s"]
      by (auto simp: scene_written_def scene_counted_def)
    from True show ?thesis
      by (simp add: si sync_result_def enable_ids_nth_other [OF ds _ _ sub])
  qed
  have q: "case q of
           SetSceneItemEnabled s i b \<Rightarrow>
             s \<notin> set ex \<and> b = v \<and>
             (\<exists>item \<in> set (scene_items w s). sceneItemId item = i \<and> sourceName item = src)
         | _ \<Rightarrow> True" if "q \<in> set C" for q
  proof (cases q)
    case (SetSceneItemEnabled s i b)
    with that c(2) obtain t where t: "t \<in> set E" "q \<in> set (scene_calls w src v t)" by auto
    with SetSceneItemEnabled have "s = t" "b = v"
      "i \<in> set (requested_ids (set_fails w t) src (scene_items w t))"
      by (auto simp: scene_calls_def split: if_splits)
    with requested_ids_subset [of "set_fails w t" src "scene_items w t"] e [OF t(1)]
    show ?thesis using SetSceneItemEnabled by auto
  qed simp_all
  show ?thesis
    unfolding untouched_elsewhere_def using a b q by (simp add: c(1))
qed

lemma untouched_elsewhere_refl:
  assumes "scene_items w' = scene_items w" "calls w' = calls w \<or> calls w' = calls w @ [GetSceneList]"
  shows "untouched_elsewhere src v ex w w'"
  using assms by (auto simp: untouched_elsewhere_def)

lemma reached_subset: "set (reached w src xs) \<subseteq> set xs"
  unfolding reached_def
  by (auto dest: set_takeWhileD in_set_takeD set_dropWhileD)

section \<open>The frame of a call\<close>

text \<open>
  C10. In both programs, whatever fails, a call of \<^verbatim>\<open>set_source_visibility_global\<close>
  sends \<^verbatim>\<open>SetSceneItemEnabled\<close> only for items whose source name is the target, in
  scenes that are not excluded; the items of excluded scenes and the items with another
  source name keep their state. Item ids are scene-scoped identifiers: they are assumed
  distinct within each listed scene, since the request addresses an item by its id.
\<close>

theorem sync_leaves_the_rest_untouched:
  assumes "\<forall>s \<in> set (scene_list w). distinct (map sceneItemId (scene_items w s))"
  shows "untouched_elsewhere source_name visible (or_empty exclude_scenes) w
           (fst (Switcher_set_source_visibility_global switcher source_name visible exclude_scenes w)) \<and>
         untouched_elsewhere source_name visible (excluded_by exclude_scene) w
           (fst (Daemon_set_source_visibility_global daemon source_name visible exclude_scene w))"
proof
  show "untouched_elsewhere source_name visible (or_empty exclude_scenes) w
           (fst (Switcher_set_source_visibility_global switcher source_name visible exclude_scenes w))"
  proof (cases "obs_ws switcher \<and> source_name \<noteq> [] \<and> \<not> list_fails w")
    case False
    then consider "\<not> obs_ws switcher" | "obs_ws switcher" "source_name = []"
      | "obs_ws switcher" "source_name \<noteq> []" "list_fails w" by blast
    then show ?thesis
      by cases (auto simp: Switcher_sync_early invoke_def logger_def issue_def
          intro!: untouched_elsewhere_refl)
  next
    case True
    from Switcher_sync_closed [OF _ _ _ refl, where self = switcher and src = source_name and w = w
        and exa = exclude_scenes and v = visible] True
    obtain L where "Switcher_set_source_visibility_global switcher source_name visible exclude_scenes w =
      ((sync_result source_name visible (entered (or_empty exclude_scenes) (scene_list w)) w)
         \<lparr>calls := calls w @ GetSceneList # concat (map (scene_calls w source_name visible)
              (entered (or_empty exclude_scenes) (scene_list w))),
          invoked := invoked w @ [Switcher_request source_name visible exclude_scenes],
          logged := logged w @ L @
            [if 0 < sync_count source_name (entered (or_empty exclude_scenes) (scene_list w)) w
             then (INFO, Set_visibility_in_scenes source_name visible
                     (sync_count source_name (entered (or_empty exclude_scenes) (scene_list w)) w)
                     (or_empty exclude_scenes))
             else (WARNING, Not_found_in_any_scenes source_name)]\<rparr>,
       0 < sync_count source_name (entered (or_empty exclude_scenes) (scene_list w)) w)"
      by blast
    then show ?thesis
      by (auto intro!: untouched_elsewhere_sync_result [OF assms, where E = "entered (or_empty exclude_scenes) (scene_list w)"])
  qed
next
  show "untouched_elsewhere source_name visible (excluded_by exclude_scene) w
           (fst (Daemon_set_source_visibility_global daemon source_name visible exclude_scene w))"
  proof (cases "obs_ws daemon \<and> source_name \<noteq> [] \<and> \<not> list_fails w")
    case False
    then consider "\<not> obs_ws daemon" | "obs_ws daemon" "source_name = []"
      | "obs_ws daemon" "source_name \<noteq> []" "list_fails w" by blast
    then show ?thesis
      by cases (auto simp: Daemon_sync_early invoke_def logger_def issue_def
          intro!: untouched_elsewhere_refl)
  next
    case True
    let ?E = "reached w source_name (entered (excluded_by exclude_scene) (scene_list w))"
    from Daemon_sync_closed [OF _ _ _ refl refl, where self = daemon and src = source_name and w = w
        and e = exclude_scene and v = visible] True
    obtain W r where "Daemon_set_source_visibility_global daemon source_name visible exclude_scene w = (W, r)"
      and "scene_items W = scene_items (sync_result source_name visible ?E w)"
      and "calls W = calls w @ GetSceneList # concat (map (scene_calls w source_name visible) ?E)"
      by fastforce
    then show ?thesis
      using reached_subset [of w source_name "entered (excluded_by exclude_scene) (scene_list w)"]
      by (auto intro!: untouched_elsewhere_sync_result [OF assms, where E = ?E])
  qed
qed

theorem sync_leaves_the_rest_untouched_witness:
  "scene_items
     (fst (Switcher_set_source_visibility_global example_switcher ''Overlay'' False
        (Some [''Monitor'']) example_world)) ''Monitor''
     = scene_items example_world ''Monitor'' \<and>
   scene_items
     (fst (Daemon_set_source_visibility_global example_daemon ''Overlay'' False
        (Some ''Monitor'') example_world)) ''Monitor''
     = scene_items example_world ''Monitor'' \<and>
   scene_items
     (fst (Switcher_set_source_visibility_global example_switcher ''Overlay'' False
        (Some [''Monitor'']) example_world)) ''Main'' ! 1
     = \<lparr>sourceName = ''Idle'', sceneItemId = 2, sceneItemEnabled = True\<rparr>"
proof -
  have d: "\<forall>s \<in> set (scene_list example_world).
             distinct (map sceneItemId (scene_items example_world s))"
    by (simp add: example_world_def)
  note f = sync_leaves_the_rest_untouched [OF d, of "''Overlay''" False "Some [''Monitor'']" example_switcher "Some ''Monitor''"
      example_daemon, unfolded untouched_elsewhere_def]
  have m: "''Monitor'' \<in> set (or_empty (Some [''Monitor'']))"
    "''Monitor'' \<in> set (excluded_by (Some ''Monitor''))"
    by simp_all
  have i: "1 < length (scene_items example_world ''Main'')"
    "sourceName (scene_items example_world ''Main'' ! 1) \<noteq> ''Overlay''"
    "scene_items example_world ''Main'' ! 1
       = \<lparr>sourceName = ''Idle'', sceneItemId = 2, sceneItemEnabled = True\<rparr>"
    by (simp_all add: example_world_def)
  from f m have "scene_items
     (fst (Switcher_set_source_visibility_global example_switcher ''Overlay'' False
        (Some [''Monitor'']) example_world)) ''Monitor''
     = scene_items example_world ''Monitor''"
    by blast
  moreover from f m have "scene_items
     (fst (Daemon_set_source_visibility_global example_daemon ''Overlay'' False
        (Some ''Monitor'') example_world)) ''Monitor''
     = scene_items example_world ''Monitor''"
    by blast
  moreover from f i(1,2) have "scene_items
     (fst (Switcher_set_source_visibility_global example_switcher ''Overlay'' False
        (Some [''Monitor'']) example_world)) ''Main'' ! 1
     = scene_items example_world ''Main'' ! 1"
    by blast
  then have "scene_items
     (fst (Switcher_set_source_visibility_global example_switcher ''Overlay'' False
        (Some [''Monitor'']) example_world)) ''Main'' ! 1
     = \<lparr>sourceName = ''Idle'', sceneItemId = 2, sceneItemEnabled = True\<rparr>"
    unfolding i(3) .
  ultimately show ?thesis by blast
qed

lemma filter_requested_ids:
  "filter (\<lambda>i. \<not> f i) (requested_ids f src xs) = counted_ids f src xs"
  by (induction xs) (auto simp: requested_ids_def counted_ids_def raises_def)

lemma returned_scene_calls:
  "length (filter (returned w) (scene_calls w src v s)) = length (scene_counted w src s)"
proof -
  have "filter (returned w) (map (\<lambda>i. SetSceneItemEnabled s i v) ids)
      = map (\<lambda>i. SetSceneItemEnabled s i v) (filter (\<lambda>i. \<not> set_fails w s i) ids)" for ids
    by (induction ids) (simp_all add: returned_def)
  then show ?thesis
    by (simp add: scene_calls_def scene_counted_def returned_def filter_requested_ids)
qed

lemma returned_calls:
  "length (filter (returned w) (concat (map (scene_calls w src v) E))) = sync_count src E w"
  by (induction E) (simp_all add: sync_count_def returned_scene_calls)

lemma calls_returned_closed:
  assumes "calls w' = calls w @ GetSceneList # concat (map (scene_calls w src v) E)"
  shows "calls_returned w w' = sync_count src E w"
  by (simp add: calls_returned_def assms returned_calls) (simp add: returned_def)













section \<open>One request per matching item, until one raises\<close>









section \<open>Idempotence and convergence\<close>



lemma Switcher_returns_flag:
  assumes "Switcher_set_source_visibility_global switcher src v exa w = (w1, r1)"
  shows "r1 = (0 < calls_returned w w1)"
    and "r1 \<longrightarrow> last (logged w1) =
           (INFO, Set_visibility_in_scenes src v (calls_returned w w1) (or_empty exa))"
    and "obs_ws switcher \<and> src \<noteq> [] \<and> \<not> list_fails w \<and> \<not> r1 \<longrightarrow>
           last (logged w1) = (WARNING, Not_found_in_any_scenes src)"
proof -
  have "r1 = (0 < calls_returned w w1) \<and>
     (r1 \<longrightarrow> last (logged w1) =
           (INFO, Set_visibility_in_scenes src v (calls_returned w w1) (or_empty exa))) \<and>
     (obs_ws switcher \<and> src \<noteq> [] \<and> \<not> list_fails w \<and> \<not> r1 \<longrightarrow>
           last (logged w1) = (WARNING, Not_found_in_any_scenes src))"
  proof (cases "obs_ws switcher \<and> src \<noteq> [] \<and> \<not> list_fails w")
    case False
    then consider "\<not> obs_ws switcher" | "obs_ws switcher" "src = []"
      | "obs_ws switcher" "src \<noteq> []" "list_fails w" by blast
    then show ?thesis
      using assms
      by cases (auto simp: Switcher_sync_early invoke_def logger_def issue_def
          calls_returned_def returned_def)
  next
    case True
    let ?E = "entered (or_empty exa) (scene_list w)"
    from Switcher_sync_closed [OF _ _ _ refl, where self = switcher and src = src and w = w
        and exa = exa and v = v] True assms
    obtain L where 1: "w1 = (sync_result src v ?E w)
         \<lparr>calls := calls w @ GetSceneList # concat (map (scene_calls w src v) ?E),
          invoked := invoked w @ [Switcher_request src v exa],
          logged := logged w @ L @
            [if 0 < sync_count src ?E w
             then (INFO, Set_visibility_in_scenes src v (sync_count src ?E w) (or_empty exa))
             else (WARNING, Not_found_in_any_scenes src)]\<rparr>"
      and 2: "r1 = (0 < sync_count src ?E w)"
      by auto
    have im: "calls_returned w w1 = sync_count src ?E w"
      by (rule calls_returned_closed) (simp add: 1)
    have lg: "last (logged w1) = (if 0 < sync_count src ?E w
             then (INFO, Set_visibility_in_scenes src v (sync_count src ?E w) (or_empty exa))
             else (WARNING, Not_found_in_any_scenes src))"
      by (simp add: 1)
    from im lg 2 True show ?thesis by simp
  qed
  then show "r1 = (0 < calls_returned w w1)"
    and "r1 \<longrightarrow> last (logged w1) =
           (INFO, Set_visibility_in_scenes src v (calls_returned w w1) (or_empty exa))"
    and "obs_ws switcher \<and> src \<noteq> [] \<and> \<not> list_fails w \<and> \<not> r1 \<longrightarrow>
           last (logged w1) = (WARNING, Not_found_in_any_scenes src)"
    by blast+
qed

lemma Daemon_returns_flag:
  assumes "Daemon_set_source_visibility_global daemon src v e w = (w2, r2)"
    and "completes src e w"
  shows "r2 = (0 < calls_returned w w2)"
    and "r2 \<longrightarrow> last (logged w2) = (INFO, Shown_or_hidden_in_scenes src v (calls_returned w w2))"
    and "obs_ws daemon \<and> src \<noteq> [] \<and> \<not> r2 \<longrightarrow>
           last (logged w2) = (DEBUG, Not_found_in_any_scenes src)"
proof -
  from assms(2) have nl: "\<not> list_fails w"
    and ok: "\<not> (\<exists>s \<in> set (entered (excluded_by e) (scene_list w)). scene_raises w src s)"
    by (simp_all add: completes_def)
  have "r2 = (0 < calls_returned w w2) \<and>
    (r2 \<longrightarrow> last (logged w2) = (INFO, Shown_or_hidden_in_scenes src v (calls_returned w w2))) \<and>
    (obs_ws daemon \<and> src \<noteq> [] \<and> \<not> r2 \<longrightarrow>
           last (logged w2) = (DEBUG, Not_found_in_any_scenes src))"
  proof (cases "obs_ws daemon \<and> src \<noteq> []")
    case False
    then consider "\<not> obs_ws daemon" | "obs_ws daemon" "src = []" by blast
    then show ?thesis
      using assms(1)
      by cases (auto simp: Daemon_sync_early invoke_def logger_def issue_def
          calls_returned_def returned_def)
  next
    case True
    let ?E = "reached w src (entered (excluded_by e) (scene_list w))"
    let ?ok = "\<not> (\<exists>s \<in> set (entered (excluded_by e) (scene_list w)). scene_raises w src s)"
    from Daemon_sync_closed [OF _ _ nl refl refl, where self = daemon and src = src
        and e = e and v = v] True assms(1)
    obtain L where 1: "w2 = (sync_result src v ?E w)
         \<lparr>calls := calls w @ GetSceneList # concat (map (scene_calls w src v) ?E),
          invoked := invoked w @ [Daemon_request src v e],
          logged := logged w @ L @
            [if \<not> ?ok then (ERROR, Failed_to_toggle_globally)
             else if 0 < sync_count src ?E w
             then (INFO, Shown_or_hidden_in_scenes src v (sync_count src ?E w))
             else (DEBUG, Not_found_in_any_scenes src)]\<rparr>"
      and 2: "r2 = (?ok \<and> 0 < sync_count src ?E w)"
      by auto
    have im: "calls_returned w w2 = sync_count src ?E w"
      by (rule calls_returned_closed) (simp add: 1)
    have lg: "last (logged w2) = (if \<not> ?ok then (ERROR, Failed_to_toggle_globally)
             else if 0 < sync_count src ?E w
             then (INFO, Shown_or_hidden_in_scenes src v (sync_count src ?E w))
             else (DEBUG, Not_found_in_any_scenes src))"
      by (simp add: 1)
    from im lg 2 ok True show ?thesis by simp
  qed
  then show "r2 = (0 < calls_returned w w2)"
    and "r2 \<longrightarrow> last (logged w2) = (INFO, Shown_or_hidden_in_scenes src v (calls_returned w w2))"
    and "obs_ws daemon \<and> src \<noteq> [] \<and> \<not> r2 \<longrightarrow>
           last (logged w2) = (DEBUG, Not_found_in_any_scenes src)"
    by blast+
qed

section \<open>What the call returns\<close>

text \<open>
  C5, as amended. \<^verbatim>\<open>set_source_visibility_global\<close> returns one boolean, not a pair. In
  \<^verbatim>\<open>fs_source.py\<close> it is \<open>True\<close> exactly when at least one \<^verbatim>\<open>SetSceneItemEnabled\<close> call
  of the non-excluded scenes returned without raising. The response of OBS is not read,
  so a request that OBS refuses is counted like one that it applies. The number of these
  calls is not returned: it is written in the INFO record that is logged when the call
  returns \<open>True\<close>. When the connection is held, the target is not empty, the scene list is
  fetched and the call returns \<open>False\<close>, its last log record is at WARNING level, not at
  ERROR level. For \<^verbatim>\<open>fs_source_daemon.py\<close> the same holds, with the record at DEBUG
  level, of the calls in which no request raises; the other calls of the daemon are left
  open here.
\<close>

theorem returns_a_flag:
  "(let (w1, r1) = Switcher_set_source_visibility_global switcher source_name visible exclude_scenes w;
        n1 = calls_returned w w1
    in r1 = (0 < n1) \<and>
       (r1 \<longrightarrow> last (logged w1) =
          (INFO, Set_visibility_in_scenes source_name visible n1 (or_empty exclude_scenes))) \<and>
       (obs_ws switcher \<and> source_name \<noteq> [] \<and> \<not> list_fails w \<and> \<not> r1 \<longrightarrow>
          last (logged w1) = (WARNING, Not_found_in_any_scenes source_name))) \<and>
   (completes source_name exclude_scene w \<longrightarrow>
    (let (w2, r2) = Daemon_set_source_visibility_global daemon source_name visible exclude_scene w;
         n2 = calls_returned w w2
     in r2 = (0 < n2) \<and>
        (r2 \<longrightarrow> last (logged w2) = (INFO, Shown_or_hidden_in_scenes source_name visible n2)) \<and>
        (obs_ws daemon \<and> source_name \<noteq> [] \<and> \<not> r2 \<longrightarrow>
           last (logged w2) = (DEBUG, Not_found_in_any_scenes source_name))))"
proof -
  obtain w1 r1 where 1:
    "Switcher_set_source_visibility_global switcher source_name visible exclude_scenes w = (w1, r1)"
    by (cases "Switcher_set_source_visibility_global switcher source_name visible exclude_scenes w")
  obtain w2 r2 where 2:
    "Daemon_set_source_visibility_global daemon source_name visible exclude_scene w = (w2, r2)"
    by (cases "Daemon_set_source_visibility_global daemon source_name visible exclude_scene w")
  note s = Switcher_returns_flag [OF 1]
  note d = Daemon_returns_flag [OF 2]
  show ?thesis
    unfolding 1 2 Let_def prod.case
    using s(1) s(2) s(3) d(1) d(2) d(3) by blast
qed

theorem returns_a_flag_witness:
  "last (logged (fst (Switcher_set_source_visibility_global example_switcher ''Ghost'' True None
      example_world))) = (WARNING, Not_found_in_any_scenes ''Ghost'') \<and>
   last (logged (fst (Daemon_set_source_visibility_global example_daemon ''Ghost'' True None
      example_world))) = (DEBUG, Not_found_in_any_scenes ''Ghost'') \<and>
   snd (Switcher_set_source_visibility_global example_switcher ''Overlay'' True None
      example_refusing_world) \<and>
   last (logged (fst (Switcher_set_source_visibility_global example_switcher ''Overlay'' True None
      example_refusing_world)))
     = (INFO, Set_visibility_in_scenes ''Overlay'' True 2 []) \<and>
   map sceneItemEnabled
     (scene_items (fst (Switcher_set_source_visibility_global example_switcher ''Overlay'' True None
        example_refusing_world)) ''Main'') = [False, True] \<and>
   snd (Daemon_set_source_visibility_global example_daemon ''Overlay'' True None
      example_refusing_world) \<and>
   last (logged (fst (Daemon_set_source_visibility_global example_daemon ''Overlay'' True None
      example_refusing_world)))
     = (INFO, Shown_or_hidden_in_scenes ''Overlay'' True 2)"
proof -
  have a: "obs_ws example_switcher \<and> ''Ghost'' \<noteq> [] \<and> \<not> list_fails example_world \<and>
    \<not> snd (Switcher_set_source_visibility_global example_switcher ''Ghost'' True None example_world)"
    by (simp add: run_defs)
  have b: "obs_ws example_daemon \<and> ''Ghost'' \<noteq> [] \<and> completes ''Ghost'' None example_world \<and>
    \<not> snd (Daemon_set_source_visibility_global example_daemon ''Ghost'' True None example_world)"
    by (simp add: run_defs completes_def entered_def scene_raises_def raises_def)
  have c: "completes ''Overlay'' None example_refusing_world"
    by (simp add: run_defs completes_def entered_def scene_raises_def raises_def)
  have n: "calls_returned example_refusing_world
       (fst (Switcher_set_source_visibility_global example_switcher ''Overlay'' True None
          example_refusing_world)) = 2"
    "calls_returned example_refusing_world
       (fst (Daemon_set_source_visibility_global example_daemon ''Overlay'' True None
          example_refusing_world)) = 2"
    by (simp_all add: run_defs calls_returned_def returned_def)
  have m: "map sceneItemEnabled
     (scene_items (fst (Switcher_set_source_visibility_global example_switcher ''Overlay'' True None
        example_refusing_world)) ''Main'') = [False, True]"
    by (simp add: run_defs)
  from returns_a_flag [of example_switcher "''Ghost''" True None example_world None example_daemon]
    returns_a_flag [of example_switcher "''Overlay''" True None example_refusing_world None
      example_daemon]
    a b c n m
  show ?thesis
    by (simp add: split_beta Let_def)
qed

text \<open>
  C5 as stated fails: two calls on the same world return the same value although one
  modifies two items and the other one item, so the returned value does not carry the
  count.
\<close>

theorem returned_value_is_not_the_count:
  "snd (Switcher_set_source_visibility_global example_switcher ''Overlay'' True None example_world)
     = snd (Switcher_set_source_visibility_global example_switcher ''Webcam'' True None example_world) \<and>
   calls_returned example_world
     (fst (Switcher_set_source_visibility_global example_switcher ''Overlay'' True None example_world)) = 2 \<and>
   calls_returned example_world
     (fst (Switcher_set_source_visibility_global example_switcher ''Webcam'' True None example_world)) = 1"
  by (simp add: run_defs calls_returned_def returned_def)

lemma map_filter_append:
  "List.map_filter f (xs @ ys) = List.map_filter f xs @ List.map_filter f ys"
  by (induction xs) (simp_all split: option.split)

lemma transitions_append:
  "logged w' = logged w @ L \<Longrightarrow> transitions w' = transitions w @ List.map_filter transition_of L"
  by (simp add: transitions_def map_filter_append)

lemma map_filter_debug:
  "fst ` set L \<subseteq> {DEBUG} \<Longrightarrow> List.map_filter transition_of L = []"
  by (induction L) (auto simp: transition_of_def)

lemma Daemon_sync_history:
  "transitions (fst (Daemon_set_source_visibility_global self src v e w)) = transitions w"
  "invoked (fst (Daemon_set_source_visibility_global self src v e w))
     = invoked w @ [Daemon_request src v e]"
proof -
  let ?W = "fst (Daemon_set_source_visibility_global self src v e w)"
  have "transitions ?W = transitions w \<and> invoked ?W = invoked w @ [Daemon_request src v e]"
  proof (cases "obs_ws self \<and> src \<noteq> [] \<and> \<not> list_fails w")
    case False
    then consider "\<not> obs_ws self" | "obs_ws self" "src = []"
      | "obs_ws self" "src \<noteq> []" "list_fails w" by blast
    then show ?thesis
      by cases (simp_all add: Daemon_sync_early invoke_def logger_def issue_def
          transitions_def map_filter_append transition_of_def)
  next
    case True
    from True have t: "obs_ws self" "src \<noteq> []" "\<not> list_fails w" by simp_all
    from Daemon_sync_closed [OF t refl refl, where e = e and v = v]
    obtain L W0 r0 r where L: "fst ` set L \<subseteq> {DEBUG}"
      and eq: "Daemon_set_source_visibility_global self src v e w = (W0, r0)"
      and 0: "logged W0 = logged w @ L @ [r]" "invoked W0 = invoked w @ [Daemon_request src v e]"
      and r: "r = (ERROR, Failed_to_toggle_globally) \<or> (\<exists>n. r = (INFO, Shown_or_hidden_in_scenes src v n))
           \<or> r = (DEBUG, Not_found_in_any_scenes src)"
      by (elim exE conjE) (rule that, assumption, assumption, simp, simp, simp)
    from eq 0 have 1: "logged ?W = logged w @ L @ [r]" "invoked ?W = invoked w @ [Daemon_request src v e]"
      by simp_all
    from r have "transition_of r = None" by (auto simp: transition_of_def)
    with transitions_append [OF 1(1)] map_filter_debug [OF L] 1(2) show ?thesis
      by (simp add: map_filter_append)
  qed
  then show "transitions ?W = transitions w" "invoked ?W = invoked w @ [Daemon_request src v e]"
    by simp_all
qed

lemma Switcher_sync_history:
  "transitions (fst (Switcher_set_source_visibility_global self src v exa w)) = transitions w"
  "invoked (fst (Switcher_set_source_visibility_global self src v exa w))
     = invoked w @ [Switcher_request src v exa]"
proof -
  let ?W = "fst (Switcher_set_source_visibility_global self src v exa w)"
  have "transitions ?W = transitions w \<and> invoked ?W = invoked w @ [Switcher_request src v exa]"
  proof (cases "obs_ws self \<and> src \<noteq> [] \<and> \<not> list_fails w")
    case False
    then consider "\<not> obs_ws self" | "obs_ws self" "src = []"
      | "obs_ws self" "src \<noteq> []" "list_fails w" by blast
    then show ?thesis
      by cases (simp_all add: Switcher_sync_early invoke_def logger_def issue_def
          transitions_def map_filter_append transition_of_def)
  next
    case True
    from True have t: "obs_ws self" "src \<noteq> []" "\<not> list_fails w" by simp_all
    from Switcher_sync_closed [OF t refl, where exa = exa and v = v]
    obtain L W0 r0 r where L: "fst ` set L \<subseteq> {DEBUG}"
      and eq: "Switcher_set_source_visibility_global self src v exa w = (W0, r0)"
      and 0: "logged W0 = logged w @ L @ [r]" "invoked W0 = invoked w @ [Switcher_request src v exa]"
      and r: "(\<exists>n. r = (INFO, Set_visibility_in_scenes src v n (or_empty exa)))
           \<or> r = (WARNING, Not_found_in_any_scenes src)"
      by (elim exE conjE) (rule that, assumption, assumption, simp, simp, simp)
    from eq 0 have 1: "logged ?W = logged w @ L @ [r]" "invoked ?W = invoked w @ [Switcher_request src v exa]"
      by simp_all
    from r have "transition_of r = None" by (auto simp: transition_of_def)
    with transitions_append [OF 1(1)] map_filter_debug [OF L] 1(2) show ?thesis
      by (simp add: map_filter_append)
  qed
  then show "transitions ?W = transitions w" "invoked ?W = invoked w @ [Switcher_request src v exa]"
    by simp_all
qed

lemma logger_history:
  "invoked (logger l m w) = invoked w"
  "transitions (logger l m w) = transitions w @ List.map_filter transition_of [(l, m)]"
  by (simp_all add: logger_def transitions_def map_filter_append)

lemma Daemon_maybe_sync:
  "transitions (if c then fst (Daemon_set_source_visibility_global self src v e w) else w)
     = transitions w"
  "invoked (if c then fst (Daemon_set_source_visibility_global self src v e w) else w)
     = invoked w @ (if c then [Daemon_request src v e] else [])"
  by (simp_all add: Daemon_sync_history)

lemma Switcher_maybe_sync:
  "transitions (if c then fst (Switcher_set_source_visibility_global self src v exa w) else w)
     = transitions w"
  "invoked (if c then fst (Switcher_set_source_visibility_global self src v exa w) else w)
     = invoked w @ (if c then [Switcher_request src v exa] else [])"
  by (simp_all add: Switcher_sync_history)

lemma Daemon_toggle_same:
  "b = face_detected self \<Longrightarrow> Daemon_toggle b t self w = (self, w)"
  by (simp add: Daemon_toggle_def)

lemma Daemon_toggle_edge:
  assumes "b \<noteq> face_detected self"
  shows "fst (Daemon_toggle b t self w) = self\<lparr>face_detected := b, last_detection_time := t\<rparr>"
    and "transitions (snd (Daemon_toggle b t self w)) = transitions w @ [b]"
    and "invoked (snd (Daemon_toggle b t self w)) = invoked w @ spec_table (config self) b"
proof -
  show "fst (Daemon_toggle b t self w) = self\<lparr>face_detected := b, last_detection_time := t\<rparr>"
    using assms by (simp add: Daemon_toggle_def Let_def)
  show "transitions (snd (Daemon_toggle b t self w)) = transitions w @ [b]"
  proof (cases b)
    case True
    with assms show ?thesis
      by (simp add: Daemon_toggle_def Let_def Daemon_maybe_sync(1) logger_history(2) transition_of_def)
  next
    case False
    with assms show ?thesis
      by (simp add: Daemon_toggle_def Let_def Daemon_maybe_sync(1) logger_history(2) transition_of_def)
  qed
  show "invoked (snd (Daemon_toggle b t self w)) = invoked w @ spec_table (config self) b"
  proof (cases b)
    case True
    with assms show ?thesis
      by (simp add: Daemon_toggle_def Let_def Daemon_maybe_sync(2) logger_history(1)
          Daemon_request_def)
  next
    case False
    with assms show ?thesis
      by (simp add: Daemon_toggle_def Let_def Daemon_maybe_sync(2) logger_history(1)
          Daemon_request_def)
  qed
qed

lemma issue_history:
  "invoked (issue q w) = invoked w" "transitions (issue q w) = transitions w"
  by (simp_all add: issue_def transitions_def)

lemma Daemon_toggle_keeps:
  "obs_ws (fst (Daemon_toggle b t self w)) = obs_ws self"
  "config (fst (Daemon_toggle b t self w)) = config self"
  by (simp_all add: Daemon_toggle_def Let_def)

lemma active_mode_while_step:
  assumes "obs_ws self"
  shows "active_mode_while (\<lparr>capture = Some (Face b), clock = t, alive = True\<rparr> # ts) n self w =
     active_mode_while ts 0
       (fst (Daemon_toggle b t self
          (issue (GetSourceScreenshot (str (monitor_source_name (config self)))) (issue GetVersion w))))
       (snd (Daemon_toggle b t self
          (issue (GetSourceScreenshot (str (monitor_source_name (config self)))) (issue GetVersion w))))"
  using assms
  by (simp add: is_obs_active_def get_source_screenshot_def split_beta)

lemma active_mode_while_detections:
  assumes "obs_ws self"
  shows "snd (snd (active_mode_while (detections bts) n self w)) = Running \<and>
     transitions (fst (snd (active_mode_while (detections bts) n self w)))
       = transitions w @ spec_transitions (face_detected self) (map fst bts) \<and>
     invoked (fst (snd (active_mode_while (detections bts) n self w)))
       = invoked w @ concat (map (spec_table (config self))
                               (spec_transitions (face_detected self) (map fst bts))) \<and>
     face_detected (fst (active_mode_while (detections bts) n self w))
       = last (face_detected self # map fst bts)"
  using assms
proof (induction bts arbitrary: n self w)
  case Nil
  show ?case by (simp add: detections_def)
next
  case (Cons bt bts)
  obtain b t where bt: "bt = (b, t)" by (cases bt)
  let ?w2 = "issue (GetSourceScreenshot (str (monitor_source_name (config self)))) (issue GetVersion w)"
  let ?self1 = "fst (Daemon_toggle b t self ?w2)"
  let ?w3 = "snd (Daemon_toggle b t self ?w2)"
  have step: "active_mode_while (detections (bt # bts)) n self w
      = active_mode_while (detections bts) 0 ?self1 ?w3"
    using active_mode_while_step [OF Cons.prems, of b t "detections bts" n w]
    by (simp add: detections_def bt)
  have o: "obs_ws ?self1" using Cons.prems by (simp add: Daemon_toggle_keeps)
  note IH = Cons.IH [OF o, of 0 ?w3]
  show ?case
  proof (cases "b = face_detected self")
    case True
    then have "?self1 = self" "?w3 = ?w2" by (simp_all add: Daemon_toggle_same)
    with IH True show ?thesis
      unfolding step by (simp add: bt issue_history)
  next
    case False
    from Daemon_toggle_edge [OF False, of t ?w2] have
      "face_detected ?self1 = b" "config ?self1 = config self"
      "transitions ?w3 = transitions w @ [b]"
      "invoked ?w3 = invoked w @ spec_table (config self) b"
      by (simp_all add: issue_history)
    with IH False show ?thesis
      unfolding step by (simp add: bt)
  qed
qed

lemma Switcher_toggle_same:
  "b = face_detected self \<Longrightarrow> Switcher_toggle b t self w = (self, w)"
  by (simp add: Switcher_toggle_def)

lemma Switcher_toggle_keeps:
  "obs_ws (fst (Switcher_toggle b t self w)) = obs_ws self"
  "config (fst (Switcher_toggle b t self w)) = config self"
  by (simp_all add: Switcher_toggle_def Let_def)

lemma Switcher_toggle_edge:
  assumes "b \<noteq> face_detected self"
  shows "fst (Switcher_toggle b t self w) = self\<lparr>face_detected := b, last_detection_time := t\<rparr>"
    and "transitions (snd (Switcher_toggle b t self w)) = transitions w @ [b]"
    and "invoked (snd (Switcher_toggle b t self w))
           = invoked w @ spec_table ((config self)\<lparr>hide_source_name := None\<rparr>) b"
proof -
  show "fst (Switcher_toggle b t self w) = self\<lparr>face_detected := b, last_detection_time := t\<rparr>"
    using assms by (simp add: Switcher_toggle_def Let_def)
  show "transitions (snd (Switcher_toggle b t self w)) = transitions w @ [b]"
  proof (cases b)
    case True
    with assms show ?thesis
      by (simp add: Switcher_toggle_def Let_def Switcher_maybe_sync(1) logger_history(2)
          transition_of_def)
  next
    case False
    with assms show ?thesis
      by (simp add: Switcher_toggle_def Let_def Switcher_maybe_sync(1) logger_history(2)
          transition_of_def)
  qed
  show "invoked (snd (Switcher_toggle b t self w))
           = invoked w @ spec_table ((config self)\<lparr>hide_source_name := None\<rparr>) b"
  proof (cases b)
    case True
    with assms show ?thesis
      by (simp add: Switcher_toggle_def Let_def Switcher_maybe_sync(2) logger_history(1)
          Switcher_request_def)
  next
    case False
    with assms show ?thesis
      by (simp add: Switcher_toggle_def Let_def Switcher_maybe_sync(2) logger_history(1)
          Switcher_request_def)
  qed
qed

lemma Switcher_while_step:
  assumes "obs_ws self"
  shows "Switcher_while (\<lparr>capture = Some (Face b), clock = t\<rparr> # cs) self w =
     Switcher_while cs
       (fst (Switcher_toggle b t self
          (issue (GetSourceScreenshot (str (monitor_source_name (config self)))) w)))
       (snd (Switcher_toggle b t self
          (issue (GetSourceScreenshot (str (monitor_source_name (config self)))) w)))"
  using assms
  by (simp add: get_source_screenshot_def split_beta)

lemma Switcher_while_detections:
  assumes "obs_ws self"
  shows "snd (snd (Switcher_while (Switcher_detections bts) self w)) = Running \<and>
     transitions (fst (snd (Switcher_while (Switcher_detections bts) self w)))
       = transitions w @ spec_transitions (face_detected self) (map fst bts) \<and>
     invoked (fst (snd (Switcher_while (Switcher_detections bts) self w)))
       = invoked w @ concat (map (spec_table ((config self)\<lparr>hide_source_name := None\<rparr>))
                               (spec_transitions (face_detected self) (map fst bts))) \<and>
     face_detected (fst (Switcher_while (Switcher_detections bts) self w))
       = last (face_detected self # map fst bts)"
  using assms
proof (induction bts arbitrary: self w)
  case Nil
  show ?case by (simp add: Switcher_detections_def)
next
  case (Cons bt bts)
  obtain b t where bt: "bt = (b, t)" by (cases bt)
  let ?w2 = "issue (GetSourceScreenshot (str (monitor_source_name (config self)))) w"
  let ?self1 = "fst (Switcher_toggle b t self ?w2)"
  let ?w3 = "snd (Switcher_toggle b t self ?w2)"
  have step: "Switcher_while (Switcher_detections (bt # bts)) self w
      = Switcher_while (Switcher_detections bts) ?self1 ?w3"
    using Switcher_while_step [OF Cons.prems, of b t "Switcher_detections bts" w]
    by (simp add: Switcher_detections_def bt)
  have o: "obs_ws ?self1" using Cons.prems by (simp add: Switcher_toggle_keeps)
  note IH = Cons.IH [OF o, of ?w3]
  show ?case
  proof (cases "b = face_detected self")
    case True
    then have "?self1 = self" "?w3 = ?w2" by (simp_all add: Switcher_toggle_same)
    with IH True show ?thesis
      unfolding step by (simp add: bt issue_history)
  next
    case False
    from Switcher_toggle_edge [OF False, of t ?w2] have
      "face_detected ?self1 = b" "config ?self1 = config self"
      "transitions ?w3 = transitions w @ [b]"
      "invoked ?w3 = invoked w @ spec_table ((config self)\<lparr>hide_source_name := None\<rparr>) b"
      by (simp_all add: issue_history)
    with IH False show ?thesis
      unfolding step by (simp add: bt)
  qed
qed

lemma distinct_adj_spec_transitions: "distinct_adj (state # spec_transitions state bs)"
  by (induction bs arbitrary: state) simp_all

section \<open>Transitions fire on edges only\<close>

text \<open>
  C3. Feed the poll loop of either program a finite sequence of detector outputs (the
  connection is held, OBS answers, every screenshot is taken). The loop is still running
  afterwards; the transitions it logged are exactly those of the specification's state
  machine, one for each output that differs from the presence value stored just before it
  and none for an output that matches; \<^verbatim>\<open>set_source_visibility_global\<close> is called for those
  transitions only; the stored value ends as the last output; and no two consecutive
  transitions carry the same state, the first one differing from the initial state. A
  cycle whose output matches the stored value changes nothing but the request history.
  The calls made at a transition are those of the specification's table, for the switcher
  with the hide-target left out, which it never reads.
\<close>

theorem transition_iff_output_differs:
  assumes "obs_ws daemon" "obs_ws switcher"
  shows
    "(let (daemon', w', r) = active_mode_while (detections outputs) n daemon w;
          emitted = spec_transitions (face_detected daemon) (map fst outputs)
      in r = Running \<and>
         transitions w' = transitions w @ emitted \<and>
         invoked w' = invoked w @ concat (map (spec_table (config daemon)) emitted) \<and>
         face_detected daemon' = last (face_detected daemon # map fst outputs) \<and>
         distinct_adj (face_detected daemon # emitted)) \<and>
     (let (switcher', w', r) = Switcher_while (Switcher_detections outputs) switcher w;
          emitted = spec_transitions (face_detected switcher) (map fst outputs)
      in r = Running \<and>
         transitions w' = transitions w @ emitted \<and>
         invoked w' = invoked w @
           concat (map (spec_table ((config switcher)\<lparr>hide_source_name := None\<rparr>)) emitted) \<and>
         face_detected switcher' = last (face_detected switcher # map fst outputs) \<and>
         distinct_adj (face_detected switcher # emitted)) \<and>
     active_mode_while (detections [(face_detected daemon, t)]) n daemon w
       = (daemon,
          issue (GetSourceScreenshot (str (monitor_source_name (config daemon)))) (issue GetVersion w),
          Running) \<and>
     Switcher_while (Switcher_detections [(face_detected switcher, t)]) switcher w
       = (switcher,
          issue (GetSourceScreenshot (str (monitor_source_name (config switcher)))) w,
          Running)"
proof -
  note d = active_mode_while_detections [OF assms(1), of outputs n w]
  note s = Switcher_while_detections [OF assms(2), of outputs w]
  have 1: "active_mode_while (detections [(face_detected daemon, t)]) n daemon w
       = (daemon,
          issue (GetSourceScreenshot (str (monitor_source_name (config daemon)))) (issue GetVersion w),
          Running)"
    using active_mode_while_step [OF assms(1), of "face_detected daemon" t "[]" n w]
    by (simp add: detections_def Daemon_toggle_same)
  have 2: "Switcher_while (Switcher_detections [(face_detected switcher, t)]) switcher w
       = (switcher,
          issue (GetSourceScreenshot (str (monitor_source_name (config switcher)))) w,
          Running)"
    using Switcher_while_step [OF assms(2), of "face_detected switcher" t "[]" w]
    by (simp add: Switcher_detections_def Switcher_toggle_same)
  from d s show ?thesis
    unfolding 1 2
    by (simp add: split_beta Let_def distinct_adj_spec_transitions)
qed

theorem transition_iff_output_differs_witness:
  "obs_ws example_daemon \<and> obs_ws example_switcher \<and>
   transitions (fst (snd (active_mode_while (detections example_outputs) 0 example_daemon
                            example_world))) = [True, False] \<and>
   invoked (fst (snd (active_mode_while (detections example_outputs) 0 example_daemon
                            example_world)))
     = [\<lparr>target_source_name = ''Overlay'', desired_visible = True, excluded_scenes = []\<rparr>,
        \<lparr>target_source_name = ''Idle'', desired_visible = False, excluded_scenes = []\<rparr>,
        \<lparr>target_source_name = ''Overlay'', desired_visible = False, excluded_scenes = [''Monitor'']\<rparr>,
        \<lparr>target_source_name = ''Idle'', desired_visible = True, excluded_scenes = []\<rparr>] \<and>
   transitions (fst (snd (Switcher_while (Switcher_detections example_outputs) example_switcher
                            example_world))) = [True, False]"
proof -
  have a: "obs_ws example_daemon" "obs_ws example_switcher"
    by (simp_all add: example_daemon_def example_switcher_def)
  have b: "face_detected example_daemon = False" "face_detected example_switcher = False"
    "config example_daemon = example_config" "config example_switcher = example_config"
    "transitions example_world = []" "invoked example_world = []"
    by (simp_all add: example_daemon_def example_switcher_def Daemon_init_def Switcher_init_def
        transitions_def example_world_def)
  from transition_iff_output_differs [OF a, of example_outputs 0 example_world 0] a
  show ?thesis
    by (simp add: split_beta Let_def b example_outputs_def example_config_def)
qed

lemmas lifecycle_defs =
  active_mode_def standby_mode_def Daemon_run_def is_obs_active_def get_source_screenshot_def
  Daemon_toggle_def Switcher_toggle_def Daemon_disconnect_obs_def Daemon_connect_obs_def
  max_consecutive_errors_def

text \<open>
  The exit of \<^verbatim>\<open>active_mode\<close> when the probe fails, in general: the reset calls are made
  and the presence flag is reset, but the connection is already dropped and no request is
  sent.
\<close>

lemma probe_failure_exit:
  assumes "\<not> alive t"
  shows "(let (self', w', r) = active_mode_while (t # ts) n self w
          in r = Returned True \<and> \<not> face_detected self' \<and> \<not> obs_ws self' \<and>
             invoked w' = invoked w @
               (if truthy (show_source_name (config self))
                then [\<lparr>target_source_name = str (show_source_name (config self)),
                       desired_visible = False, excluded_scenes = []\<rparr>] else []) @
               (if truthy (hide_source_name (config self))
                then [\<lparr>target_source_name = str (hide_source_name (config self)),
                       desired_visible = True, excluded_scenes = []\<rparr>] else []) \<and>
             scene_items w' = scene_items w \<and>
             calls w' = calls w @ (if obs_ws self then [GetVersion] else []))"
proof -
  obtain self1 w1 where 1: "is_obs_active (alive t) self w = (self1, w1, False)"
    and 2: "\<not> obs_ws self1" "config self1 = config self" "invoked w1 = invoked w"
      "scene_items w1 = scene_items w" "calls w1 = calls w @ (if obs_ws self then [GetVersion] else [])"
    using assms
    by (cases "obs_ws self")
      (simp_all add: is_obs_active_def Daemon_disconnect_obs_def issue_def logger_def)
  let ?w2 = "logger INFO OBS_stopped_returning_to_standby w1"
  have 3: "Daemon_set_source_visibility_global self1 src v e x = (invoke (Daemon_request src v e) x, False)"
    for src v e x
    using 2(1) by (rule Daemon_sync_early(1))
  show ?thesis
    by (simp add: 1 2 3 Let_def invoke_def logger_def Daemon_request_def)
qed

section \<open>Where the code departs from the specification\<close>

text \<open>
  C1 fails in \<^verbatim>\<open>fs_source_daemon.py\<close>. With the scenes \<open>A\<close>, \<open>B\<close>, \<open>C\<close> each holding
  \<open>Cam\<close> and the item list of \<open>B\<close> failing, the daemon's
  \<^verbatim>\<open>set_source_visibility_global\<close> enables \<open>Cam\<close> in \<open>A\<close>, leaves the loop at \<open>B\<close>, never
  asks for \<open>C\<close>, logs an error and returns \<open>False\<close>. The function of the same name in
  \<^verbatim>\<open>fs_source.py\<close>, whose loop body has its own \<^verbatim>\<open>try\<close>, skips \<open>B\<close>, enables \<open>Cam\<close> in
  \<open>A\<close> and \<open>C\<close> and returns \<open>True\<close>.
\<close>

theorem daemon_aborts_at_broken_scene:
  "(let (w', r) = Daemon_set_source_visibility_global example_daemon ''Cam'' True None
                    example_broken_world
    in \<not> r \<and>
       map sceneItemEnabled (scene_items w' ''A'') = [True] \<and>
       map sceneItemEnabled (scene_items w' ''C'') = [False] \<and>
       calls w' = [GetSceneList, GetSceneItemList ''A'', SetSceneItemEnabled ''A'' 1 True,
                   GetSceneItemList ''B''] \<and>
       last (logged w') = (ERROR, Failed_to_toggle_globally)) \<and>
   (let (w', r) = Switcher_set_source_visibility_global example_switcher ''Cam'' True None
                    example_broken_world
    in r \<and>
       map sceneItemEnabled (scene_items w' ''A'') = [True] \<and>
       map sceneItemEnabled (scene_items w' ''C'') = [True] \<and>
       calls w' = [GetSceneList, GetSceneItemList ''A'', SetSceneItemEnabled ''A'' 1 True,
                   GetSceneItemList ''B'',
                   GetSceneItemList ''C'', SetSceneItemEnabled ''C'' 1 True])"
  by (simp add: run_defs example_broken_world_def)

text \<open>
  C4 fails in \<^verbatim>\<open>fs_source.py\<close>. With show-target \<open>Overlay\<close> and hide-target \<open>Idle\<close>
  configured, a transition to \<open>PRESENT\<close> makes the switcher call
  \<^verbatim>\<open>set_source_visibility_global\<close> for \<open>Overlay\<close> only: \<open>Idle\<close> stays enabled in both
  scenes. The daemon's loop, on the same input, also hides \<open>Idle\<close>.
\<close>

theorem switcher_ignores_hide_target:
  "(let (switcher', w') = Switcher_toggle True 1 example_switcher example_world
    in face_detected switcher' \<and>
       invoked w' = [\<lparr>target_source_name = ''Overlay'', desired_visible = True,
                      excluded_scenes = []\<rparr>] \<and>
       map sceneItemEnabled (filter (\<lambda>item. sourceName item = ''Idle'') (scene_items w' ''Main''))
         = [True] \<and>
       map sceneItemEnabled (filter (\<lambda>item. sourceName item = ''Idle'') (scene_items w' ''Monitor''))
         = [True]) \<and>
   (let (daemon', w') = Daemon_toggle True 1 example_daemon example_world
    in face_detected daemon' \<and>
       invoked w' = [\<lparr>target_source_name = ''Overlay'', desired_visible = True,
                      excluded_scenes = []\<rparr>,
                     \<lparr>target_source_name = ''Idle'', desired_visible = False,
                      excluded_scenes = []\<rparr>] \<and>
       map sceneItemEnabled (filter (\<lambda>item. sourceName item = ''Idle'') (scene_items w' ''Main''))
         = [False] \<and>
       map sceneItemEnabled (filter (\<lambda>item. sourceName item = ''Idle'') (scene_items w' ''Monitor''))
         = [False])"
  by (simp add: run_defs lifecycle_defs)

text \<open>
  C2 fails on the exit through the error ceiling. After a face was detected and five
  screenshots in a row failed, \<^verbatim>\<open>active_mode\<close> returns \<open>False\<close> from inside the loop:
  the only calls of \<^verbatim>\<open>set_source_visibility_global\<close> are the two of the transition,
  \<open>Overlay\<close> is still enabled and \<^verbatim>\<open>self.face_detected\<close> is still \<open>True\<close>. On the other
  exit, when the probe fails, the two reset calls are made and the flag is reset; since
  \<^verbatim>\<open>is_obs_active\<close> has dropped the connection by then, they return at once and send no
  request.
\<close>

theorem error_ceiling_exit_skips_reset:
  "(let (daemon', w', r) = active_mode example_failing_ticks example_daemon example_world
    in r = Returned False \<and>
       face_detected daemon' \<and>
       invoked w' = [\<lparr>target_source_name = ''Overlay'', desired_visible = True,
                      excluded_scenes = []\<rparr>,
                     \<lparr>target_source_name = ''Idle'', desired_visible = False,
                      excluded_scenes = []\<rparr>] \<and>
       map sceneItemEnabled
         (filter (\<lambda>item. sourceName item = ''Overlay'') (scene_items w' ''Main'')) = [True]) \<and>
   (let (daemon', w', r) = active_mode example_stopping_ticks example_daemon example_world
    in r = Returned True \<and>
       \<not> face_detected daemon' \<and>
       \<not> obs_ws daemon' \<and>
       invoked w' = [\<lparr>target_source_name = ''Overlay'', desired_visible = True,
                      excluded_scenes = []\<rparr>,
                     \<lparr>target_source_name = ''Idle'', desired_visible = False,
                      excluded_scenes = []\<rparr>,
                     \<lparr>target_source_name = ''Overlay'', desired_visible = False,
                      excluded_scenes = []\<rparr>,
                     \<lparr>target_source_name = ''Idle'', desired_visible = True,
                      excluded_scenes = []\<rparr>] \<and>
       map sceneItemEnabled
         (filter (\<lambda>item. sourceName item = ''Overlay'') (scene_items w' ''Main'')) = [True])"
  by (simp add: run_defs lifecycle_defs example_failing_ticks_def example_stopping_ticks_def)

text \<open>
  C8 fails for the same reason. \<^verbatim>\<open>run\<close> with a first session that ends at the error
  ceiling while a face is detected, and a second session that has just connected: the
  daemon is in its second active session and \<^verbatim>\<open>self.face_detected\<close> is \<open>True\<close>.
\<close>

theorem stale_presence_in_next_session:
  "(let (daemon', w', p) = Daemon_run example_sessions (Daemon_init example_config) example_world
    in p = ACTIVE \<and> face_detected daemon' \<and>
       length (filter (\<lambda>r. r = (INFO, Active_mode_enabled)) (logged w')) = 2)"
  by (simp add: run_defs lifecycle_defs example_failing_ticks_def example_sessions_def)

end
